theory Spec2Isabelle
  imports Main "HOL-Library.Word"
begin

section \<open>JavaScript strings\<close>

text \<open>
  A JavaScript string is a sequence of 16-bit code units, and its length and indices count
  code units. \<open>units\<close> gives the code units of a literal written in ASCII.
\<close>

type_synonym code_unit = "16 word"

type_synonym jstring = "code_unit list"

definition units :: "string \<Rightarrow> jstring" where
  "units s = map of_char s"

text \<open>
  \<open>String.prototype.toLowerCase\<close> is a builtin of the JavaScript engine, not code of this
  repository, and its table of case mappings is the one of the Unicode standard. Every
  definition below that calls it takes it as its first argument, a function
  \<open>toLowerCase\<close> from strings to strings, and every property is proved for every such
  function, under the assumptions about it that the property states. In particular nothing
  assumes that lower-casing keeps the length of a string: the builtin does not (the one
  code unit U+0130 becomes the two code units U+0069 U+0307).
\<close>

text \<open>
  \<open>occurs_at q s j\<close>: the code units of \<open>s\<close> from index \<open>j\<close> on start with \<open>q\<close>.
\<close>

definition occurs_at :: "jstring \<Rightarrow> jstring \<Rightarrow> nat \<Rightarrow> bool" where
  "occurs_at q s j = (take (length q) (drop j s) = q)"

text \<open>
  \<open>s.indexOf(q, pos)\<close>: the least index \<open>\<ge> pos\<close> at which \<open>q\<close> occurs in \<open>s\<close>;
  JavaScript's \<open>-1\<close> is \<open>None\<close>. \<open>pos\<close> is clamped to the length of \<open>s\<close>, as
  JavaScript does. \<open>index_of\<close> is the scan from the front of a string.
\<close>

fun index_of :: "jstring \<Rightarrow> jstring \<Rightarrow> nat option" where
  "index_of [] q = (if q = [] then Some 0 else None)"
| "index_of (c # cs) q =
     (if take (length q) (c # cs) = q then Some 0 else map_option Suc (index_of cs q))"

definition indexOf :: "jstring \<Rightarrow> jstring \<Rightarrow> nat \<Rightarrow> nat option" where
  "indexOf s q pos = map_option (\<lambda>i. i + min pos (length s)) (index_of (drop pos s) q)"

definition includes_str :: "jstring \<Rightarrow> jstring \<Rightarrow> bool" where
  "includes_str s q = (indexOf s q 0 \<noteq> None)"

text \<open>
  \<open>s.substring(a, b)\<close> clamps both arguments to the length of \<open>s\<close> and swaps them when
  \<open>a > b\<close>; \<open>s.substring(a)\<close> is \<open>drop a s\<close>.
\<close>

definition substring :: "jstring \<Rightarrow> nat \<Rightarrow> nat \<Rightarrow> jstring" where
  "substring s a b = take (max a b - min a b) (drop (min a b) s)"

text \<open>
  \<open>s.trim()\<close> removes white space and line terminators at both ends: the code units
  U+0009 to U+000D, U+0020, U+00A0, U+1680, U+2000 to U+200A, U+2028, U+2029, U+202F,
  U+205F, U+3000 and U+FEFF.
\<close>

definition is_space :: "code_unit \<Rightarrow> bool" where
  "is_space u =
     (u \<in> {0x9, 0xA, 0xB, 0xC, 0xD, 0x20, 0xA0, 0x1680, 0x2028, 0x2029, 0x202F, 0x205F,
            0x3000, 0xFEFF}
      \<or> (0x2000 \<le> u \<and> u \<le> 0x200A))"

definition trim :: "jstring \<Rightarrow> jstring" where
  "trim s = rev (dropWhile is_space (rev (dropWhile is_space s)))"

section \<open>Snippet extraction: \<open>getHighlightedSnippet\<close>\<close>

text \<open>
  The function returns either a plain string (when the search term is not found) or a
  React fragment, a list of parts: plain text and highlighted \<open>span\<close>s. The \<open>key\<close> and
  \<open>className\<close> attributes of the spans carry no text and are left out.
\<close>

datatype part = Plain jstring | Highlight jstring

datatype snippet = Text jstring | Fragment "part list"

fun part_text :: "part \<Rightarrow> jstring" where
  "part_text (Plain s) = s"
| "part_text (Highlight s) = s"

definition flat :: "part list \<Rightarrow> jstring" where
  "flat ps = concat (map part_text ps)"

text \<open>
  The \<open>while (searchIndex !== -1)\<close> loop. Its state is \<open>currentIndex\<close>, \<open>searchIndex\<close>
  and \<open>parts\<close>; it returns the final \<open>parts\<close> and \<open>currentIndex\<close>. \<open>searchLen\<close> is
  \<open>searchTerm.length\<close>. With an empty search term the loop of the source never ends; here
  that is the value \<open>None\<close>.
\<close>

partial_function (option) highlight_loop ::
  "jstring \<Rightarrow> jstring \<Rightarrow> jstring \<Rightarrow> nat \<Rightarrow> nat \<Rightarrow> nat option \<Rightarrow> part list
     \<Rightarrow> (part list \<times> nat) option"
where
  [code]: "highlight_loop snippet snippetLower lowerSearch searchLen currentIndex searchIndex parts =
     (case searchIndex of
        None \<Rightarrow> Some (parts, currentIndex)
      | Some si \<Rightarrow>
          (let parts1 = (if si > currentIndex
                         then parts @ [Plain (substring snippet currentIndex si)]
                         else parts);
               parts2 = parts1 @ [Highlight (substring snippet si (si + searchLen))];
               currentIndex' = si + searchLen
           in highlight_loop snippet snippetLower lowerSearch searchLen currentIndex'
                (indexOf snippetLower lowerSearch currentIndex') parts2))"

definition getHighlightedSnippet ::
  "(jstring \<Rightarrow> jstring) \<Rightarrow> jstring \<Rightarrow> jstring \<Rightarrow> nat \<Rightarrow> snippet option" where
  "getHighlightedSnippet toLowerCase text searchTerm maxLength =
     (let lowerText = toLowerCase text;
          lowerSearch = toLowerCase searchTerm
      in case indexOf lowerText lowerSearch 0 of
           None \<Rightarrow>
             Some (Text (substring text 0 maxLength @
                         (if length text > maxLength then units ''...'' else [])))
         | Some index \<Rightarrow>
             (let snippetStart = nat (max 0 (int index - 30));
                  snippetEnd = min (length text) (index + length searchTerm + 70);
                  snippet0 = substring text snippetStart snippetEnd;
                  snippet1 = (if snippetStart > 0 then units ''...'' @ snippet0 else snippet0);
                  snippet = (if snippetEnd < length text then snippet1 @ units ''...''
                             else snippet1);
                  snippetLower = toLowerCase snippet
              in case highlight_loop snippet snippetLower lowerSearch (length searchTerm) 0
                        (indexOf snippetLower lowerSearch 0) [] of
                   None \<Rightarrow> None
                 | Some (parts, currentIndex) \<Rightarrow>
                     Some (Fragment (if currentIndex < length snippet
                                     then parts @ [Plain (drop currentIndex snippet)]
                                     else parts))))"

text \<open>
  What the snippet is meant to be, in the words of the specification: the query \<open>Q\<close>
  occurs in the text \<open>T\<close> at index \<open>j\<close> up to case when the \<open>length Q\<close> code units of \<open>T\<close>
  from \<open>j\<close> on have the lower case of \<open>Q\<close>.
\<close>

definition ci_occurs_at :: "(jstring \<Rightarrow> jstring) \<Rightarrow> jstring \<Rightarrow> jstring \<Rightarrow> nat \<Rightarrow> bool" where
  "ci_occurs_at toLowerCase Q T j =
     (j + length Q \<le> length T \<and> toLowerCase (take (length Q) (drop j T)) = toLowerCase Q)"

text \<open>
  For evaluating the definitions at given strings: \<open>lower_latin1\<close> is \<open>toLowerCase\<close> on
  the strings whose code units are all below U+0100 or equal to U+0130. There the builtin
  maps \<open>A\<close> to \<open>Z\<close> (U+0041 to U+005A) and U+00C0 to U+00DE, but for the multiplication
  sign U+00D7, to the code unit 32 above, maps U+0130 to the two code units U+0069 U+0307,
  and leaves every other code unit as it is. \<open>latin1_or_0130\<close> says that a string is of
  that kind. On other strings \<open>lower_latin1\<close> is not the builtin, and nothing is stated
  about it there.
\<close>

definition lower_unit :: "code_unit \<Rightarrow> jstring" where
  "lower_unit u =
     (if 0x41 \<le> u \<and> u \<le> 0x5A then [u + 0x20]
      else if 0xC0 \<le> u \<and> u \<le> 0xDE \<and> u \<noteq> 0xD7 then [u + 0x20]
      else if u = 0x130 then [0x69, 0x307]
      else [u])"

definition lower_latin1 :: "jstring \<Rightarrow> jstring" where
  "lower_latin1 s = concat (map lower_unit s)"

definition latin1_or_0130 :: "jstring \<Rightarrow> bool" where
  "latin1_or_0130 s = list_all (\<lambda>u. u < 0x100 \<or> u = 0x130) s"

text \<open>
  Two texts at which the function is evaluated below. \<open>dotted_I_text\<close> is 31 times the
  letter U+0130 (capital I with a dot above) and then \<open>x\<close>. \<open>dots_text\<close> is \<open>z\<close>, 30
  times \<open>a\<close>, a full stop, 30 times \<open>a\<close> and a full stop, and \<open>dots_query\<close> is its last 32
  code units: a full stop, 30 times \<open>a\<close> and a full stop.
\<close>

definition dotted_I_text :: jstring where
  "dotted_I_text = replicate 31 0x130 @ units ''x''"

definition dots_query :: jstring where
  "dots_query = units ''.'' @ replicate 30 0x61 @ units ''.''"

definition dots_text :: jstring where
  "dots_text = units ''z'' @ replicate 30 0x61 @ dots_query"

section \<open>The query engine: the search effect of \<open>GlobalSearch\<close>\<close>

text \<open>
  \<open>GlobalSearch\<close> takes its four collections as \<open>any[]\<close>. The records below have the
  fields the search reads, under prefixed names. The search reads a discussion and its
  comments through optional chaining (\<open>discussion.name?.\<close>), so those fields are options;
  \<open>None\<close> stands for \<open>undefined\<close> and \<open>null\<close>.
\<close>

datatype repo = UI | API

record SearchFolder =
  sf_name :: jstring
  sf_purpose :: jstring
  sf_description :: jstring

record Document =
  doc_name :: jstring
  doc_uploadedAt :: jstring

record Comment =
  comment_name :: "jstring option"
  comment_message :: "jstring option"

record Discussion =
  post_id :: jstring
  post_name :: "jstring option"
  post_message :: "jstring option"
  comments :: "Comment list option"

text \<open>
  A search result. The \<open>onClick\<close> closure is modelled by what it does: the page it
  navigates to and the folder or post it selects. The description is a string; the
  descriptions built by template literals keep their arguments:
  \<open>Uploaded d\<close> is \<open>`Uploaded ${new Date(d).toLocaleDateString()}`\<close>,
  \<open>In_post n\<close> is \<open>`In post \<bullet> ${n} comments`\<close>,
  \<open>In_comment_by a\<close> is \<open>`In comment by ${a}`\<close>,
  \<open>Comment_author a\<close> is \<open>`Comment author: ${a}`\<close> and
  \<open>Comment_count n\<close> is \<open>`${n} comments`\<close>.
\<close>

datatype result_type = TFolder | TDocument | TDiscussion

datatype descr =
    Literal jstring
  | Uploaded jstring
  | In_post nat
  | In_comment_by "jstring option"
  | Comment_author jstring
  | Comment_count nat

datatype nav = Nav_folder repo jstring | Nav_documents | Nav_post jstring

record SearchResult =
  result_type :: result_type
  title :: jstring
  result_description :: descr
  highlightedSnippet :: "snippet option"
  result_repo :: "repo option"
  onClick :: nav

text \<open>\<open>a || b\<close> on strings: the empty string is falsy.\<close>

definition js_or :: "jstring \<Rightarrow> jstring \<Rightarrow> jstring" where
  "js_or a b = (if a \<noteq> [] then a else b)"

text \<open>
  \<open>x?.toLowerCase().includes(searchLower)\<close> is falsy when \<open>x\<close> is undefined;
  \<open>matching toLowerCase x searchLower\<close> is the string \<open>x\<close> when the test is truthy. \<open>opt_str x\<close> is
  \<open>x\<close> as an operand of \<open>||\<close>, where undefined and the empty string are both falsy.
\<close>

definition matching :: "(jstring \<Rightarrow> jstring) \<Rightarrow> jstring option \<Rightarrow> jstring \<Rightarrow> jstring option" where
  "matching toLowerCase x searchLower =
     (case x of
        None \<Rightarrow> None
      | Some s \<Rightarrow> if includes_str (toLowerCase s) searchLower then Some s else None)"

definition opt_includes :: "(jstring \<Rightarrow> jstring) \<Rightarrow> jstring option \<Rightarrow> jstring \<Rightarrow> bool" where
  "opt_includes toLowerCase x searchLower = (matching toLowerCase x searchLower \<noteq> None)"

definition opt_str :: "jstring option \<Rightarrow> jstring" where
  "opt_str x = (case x of None \<Rightarrow> [] | Some s \<Rightarrow> s)"

text \<open>
  \<open>xs.forEach(body)\<close> where the body pushes onto \<open>foundResults\<close>. A step is \<open>None\<close> when
  the body does not return (a call of \<open>getHighlightedSnippet\<close> that loops).
\<close>

fun forEach :: "('a \<Rightarrow> 'r list \<Rightarrow> 'r list option) \<Rightarrow> 'a list \<Rightarrow> 'r list \<Rightarrow> 'r list option" where
  "forEach body [] foundResults = Some foundResults"
| "forEach body (x # xs) foundResults =
     (case body x foundResults of
        None \<Rightarrow> None
      | Some foundResults' \<Rightarrow> forEach body xs foundResults')"

text \<open>
  The body of the loops over \<open>uiFolders\<close> and \<open>apiFolders\<close>. The source has the body
  twice; the two copies differ in the repository tag and the default description only.
\<close>

definition default_description :: "repo \<Rightarrow> jstring" where
  "default_description r =
     (case r of
        UI \<Rightarrow> units ''UI Test Automation Folder''
      | API \<Rightarrow> units ''API Test Automation Folder'')"

definition search_folder ::
  "(jstring \<Rightarrow> jstring) \<Rightarrow> repo \<Rightarrow> jstring \<Rightarrow> SearchFolder \<Rightarrow> SearchResult list
     \<Rightarrow> SearchResult list option" where
  "search_folder toLowerCase r searchTerm folder foundResults =
     (let searchLower = toLowerCase searchTerm;
          matchedText =
            (if includes_str (toLowerCase (sf_name folder)) searchLower
             then js_or (sf_description folder) (js_or (sf_purpose folder) [])
             else if includes_str (toLowerCase (sf_purpose folder)) searchLower
             then sf_purpose folder
             else if includes_str (toLowerCase (sf_description folder)) searchLower
             then sf_description folder
             else [])
      in if matchedText \<noteq> [] \<or> includes_str (toLowerCase (sf_name folder)) searchLower
         then (case (if matchedText \<noteq> []
                     then map_option Some
                            (getHighlightedSnippet toLowerCase matchedText searchTerm 100)
                     else Some None) of
                 None \<Rightarrow> None
               | Some snip \<Rightarrow>
                   Some (foundResults @
                     [\<lparr> result_type = TFolder,
                        title = sf_name folder,
                        result_description =
                          Literal (js_or (sf_purpose folder) (default_description r)),
                        highlightedSnippet = snip,
                        result_repo = Some r,
                        onClick = Nav_folder r (sf_name folder) \<rparr>]))
         else Some foundResults)"

definition search_document ::
  "(jstring \<Rightarrow> jstring) \<Rightarrow> jstring \<Rightarrow> Document \<Rightarrow> SearchResult list
     \<Rightarrow> SearchResult list option" where
  "search_document toLowerCase searchTerm doc foundResults =
     (let searchLower = toLowerCase searchTerm
      in if includes_str (toLowerCase (doc_name doc)) searchLower
         then Some (foundResults @
                [\<lparr> result_type = TDocument,
                   title = doc_name doc,
                   result_description = Uploaded (doc_uploadedAt doc),
                   highlightedSnippet = None,
                   result_repo = None,
                   onClick = Nav_documents \<rparr>])
         else Some foundResults)"

text \<open>
  The \<open>for (const comment of discussion.comments)\<close> loop with its two \<open>break\<close>s: the
  matched text and the match reason of the first comment whose message or author name
  contains the query, \<open>None\<close> when the loop ends without a match.
\<close>

fun search_comments ::
  "(jstring \<Rightarrow> jstring) \<Rightarrow> jstring \<Rightarrow> Comment list \<Rightarrow> (jstring \<times> descr) option" where
  "search_comments toLowerCase searchLower [] = None"
| "search_comments toLowerCase searchLower (c # cs) =
     (case matching toLowerCase (comment_message c) searchLower of
        Some m \<Rightarrow> Some (m, In_comment_by (comment_name c))
      | None \<Rightarrow>
          (case matching toLowerCase (comment_name c) searchLower of
             Some a \<Rightarrow>
               Some (js_or (opt_str (comment_message c)) (units ''Comment by '' @ a),
                     Comment_author a)
           | None \<Rightarrow> search_comments toLowerCase searchLower cs))"

definition comment_count :: "Discussion \<Rightarrow> nat" where
  "comment_count discussion = (case comments discussion of None \<Rightarrow> 0 | Some cs \<Rightarrow> length cs)"

text \<open>
  The body of the loop over \<open>discussions\<close>. \<open>post_match\<close> is the state of \<open>matchedText\<close>
  and \<open>matchReason\<close> after the test of the post message, \<open>body_match\<close> their state after
  the loop over the comments, which runs when \<open>matchedText\<close> is still empty.
\<close>

definition post_match :: "(jstring \<Rightarrow> jstring) \<Rightarrow> jstring \<Rightarrow> Discussion \<Rightarrow> jstring \<times> descr" where
  "post_match toLowerCase searchLower discussion =
     (case matching toLowerCase (post_message discussion) searchLower of
        Some m \<Rightarrow> (m, In_post (comment_count discussion))
      | None \<Rightarrow> ([], Literal []))"

definition body_match :: "(jstring \<Rightarrow> jstring) \<Rightarrow> jstring \<Rightarrow> Discussion \<Rightarrow> jstring \<times> descr" where
  "body_match toLowerCase searchLower discussion =
     (let (matchedText, matchReason) = post_match toLowerCase searchLower discussion
      in case comments discussion of
           None \<Rightarrow> (matchedText, matchReason)
         | Some cs \<Rightarrow>
             if matchedText = []
             then (case search_comments toLowerCase searchLower cs of
                     None \<Rightarrow> (matchedText, matchReason)
                   | Some found \<Rightarrow> found)
             else (matchedText, matchReason))"

definition search_discussion ::
  "(jstring \<Rightarrow> jstring) \<Rightarrow> jstring \<Rightarrow> Discussion \<Rightarrow> SearchResult list
     \<Rightarrow> SearchResult list option" where
  "search_discussion toLowerCase searchTerm discussion foundResults =
     (let searchLower = toLowerCase searchTerm;
          titleMatches = opt_includes toLowerCase (post_name discussion) searchLower;
          (matchedText, matchReason) = body_match toLowerCase searchLower discussion
      in if titleMatches \<or> matchedText \<noteq> []
         then (case (if matchedText \<noteq> []
                     then map_option (\<lambda>s. (Some s, matchReason))
                            (getHighlightedSnippet toLowerCase matchedText searchTerm 100)
                     else Some (None, Comment_count (comment_count discussion))) of
                 None \<Rightarrow> None
               | Some (snip, reason) \<Rightarrow>
                   Some (foundResults @
                     [\<lparr> result_type = TDiscussion,
                        title = js_or (opt_str (post_name discussion)) (units ''Untitled''),
                        result_description = reason,
                        highlightedSnippet = snip,
                        result_repo = None,
                        onClick = Nav_post (post_id discussion) \<rparr>]))
         else Some foundResults)"

text \<open>
  The search effect: the value it passes to \<open>setResults\<close>, \<open>None\<close> when it does not return.
\<close>

definition search_effect ::
  "(jstring \<Rightarrow> jstring) \<Rightarrow> jstring \<Rightarrow> SearchFolder list \<Rightarrow> SearchFolder list
     \<Rightarrow> Document list \<Rightarrow> Discussion list \<Rightarrow> SearchResult list option" where
  "search_effect toLowerCase searchTerm uiFolders apiFolders documents discussions =
     (if trim searchTerm = [] then Some []
      else
        Option.bind (forEach (search_folder toLowerCase UI searchTerm) uiFolders []) (\<lambda>found1.
        Option.bind (forEach (search_folder toLowerCase API searchTerm) apiFolders found1) (\<lambda>found2.
        Option.bind (forEach (search_document toLowerCase searchTerm) documents found2) (\<lambda>found3.
        Option.bind (forEach (search_discussion toLowerCase searchTerm) discussions found3) (\<lambda>found4.
        Some (take 10 found4))))))"

text \<open>
  The matching rules in the words of the specification: containment up to case, of the
  query in the name, purpose or description of a folder, in the name of a document, and
  in the title or message of a post or the message or author name of one of its comments.
  Containment up to case is containment of the lower-cased query in the lower-cased field.
\<close>

definition folder_matches :: "(jstring \<Rightarrow> jstring) \<Rightarrow> jstring \<Rightarrow> SearchFolder \<Rightarrow> bool" where
  "folder_matches toLowerCase q f =
     (includes_str (toLowerCase (sf_name f)) (toLowerCase q)
      \<or> includes_str (toLowerCase (sf_purpose f)) (toLowerCase q)
      \<or> includes_str (toLowerCase (sf_description f)) (toLowerCase q))"

definition document_matches :: "(jstring \<Rightarrow> jstring) \<Rightarrow> jstring \<Rightarrow> Document \<Rightarrow> bool" where
  "document_matches toLowerCase q d = includes_str (toLowerCase (doc_name d)) (toLowerCase q)"

definition comment_matches :: "(jstring \<Rightarrow> jstring) \<Rightarrow> jstring \<Rightarrow> Comment \<Rightarrow> bool" where
  "comment_matches toLowerCase q c =
     (opt_includes toLowerCase (comment_message c) (toLowerCase q)
      \<or> opt_includes toLowerCase (comment_name c) (toLowerCase q))"

definition discussion_matches :: "(jstring \<Rightarrow> jstring) \<Rightarrow> jstring \<Rightarrow> Discussion \<Rightarrow> bool" where
  "discussion_matches toLowerCase q d =
     (opt_includes toLowerCase (post_name d) (toLowerCase q)
      \<or> opt_includes toLowerCase (post_message d) (toLowerCase q)
      \<or> (case comments d of
            None \<Rightarrow> False
          | Some cs \<Rightarrow> list_ex (comment_matches toLowerCase q) cs))"

text \<open>What identifies a result in the list: its type tag, repository tag and title.\<close>

definition result_key :: "SearchResult \<Rightarrow> result_type \<times> repo option \<times> jstring" where
  "result_key r = (result_type r, result_repo r, title r)"

definition discussion_title :: "Discussion \<Rightarrow> jstring" where
  "discussion_title d = js_or (opt_str (post_name d)) (units ''Untitled'')"

text \<open>
  The fallback of \<open>getHighlightedSnippet\<close> with the default \<open>maxLength\<close>: the first 100
  code units, and \<open>...\<close> when the text is longer.
\<close>

definition preview :: "jstring \<Rightarrow> jstring" where
  "preview t = take 100 t @ (if 100 < length t then units ''...'' else [])"

text \<open>
  A title-only match: the query occurs in the name or title up to case, and in none of
  the body fields of the entity (purpose and description of a folder; message of a post,
  messages and author names of its comments).
\<close>

definition folder_title_only :: "(jstring \<Rightarrow> jstring) \<Rightarrow> jstring \<Rightarrow> SearchFolder \<Rightarrow> bool" where
  "folder_title_only toLowerCase q f =
     (includes_str (toLowerCase (sf_name f)) (toLowerCase q)
      \<and> \<not> includes_str (toLowerCase (sf_purpose f)) (toLowerCase q)
      \<and> \<not> includes_str (toLowerCase (sf_description f)) (toLowerCase q))"

definition discussion_title_only :: "(jstring \<Rightarrow> jstring) \<Rightarrow> jstring \<Rightarrow> Discussion \<Rightarrow> bool" where
  "discussion_title_only toLowerCase q d =
     (opt_includes toLowerCase (post_name d) (toLowerCase q)
      \<and> \<not> opt_includes toLowerCase (post_message d) (toLowerCase q)
      \<and> \<not> (case comments d of
               None \<Rightarrow> False
             | Some cs \<Rightarrow> list_ex (comment_matches toLowerCase q) cs))"

text \<open>Sample data: a folder with a name and a description, a document with a name.\<close>

definition sample_folder :: "string \<Rightarrow> string \<Rightarrow> string \<Rightarrow> SearchFolder" where
  "sample_folder n p d = \<lparr> sf_name = units n, sf_purpose = units p, sf_description = units d \<rparr>"

definition named_doc :: "string \<Rightarrow> Document" where
  "named_doc n = \<lparr> doc_name = units n, doc_uploadedAt = units ''2024-01-01T00:00:00.000Z'' \<rparr>"

definition sample_discussion :: Discussion where
  "sample_discussion =
     \<lparr> post_id = units ''p1'', post_name = Some (units ''Pages question''),
        post_message = Some (units ''hello''),
        comments = Some [\<lparr> comment_name = Some (units ''Ann''),
                            comment_message = Some (units ''see the docs'') \<rparr>] \<rparr>"

section \<open>The REST layer\<close>

text \<open>
  JSON values. An object is a map from keys to values, so that \<open>{...a, ...b}\<close> is
  \<open>a ++ b\<close>; the order of the keys is not modelled. A key with the value \<open>undefined\<close> is
  an absent key, as it is after \<open>JSON.stringify\<close>. Numbers are integers here: the handlers
  only test them for truthiness.
\<close>

datatype json =
    JNull
  | JBool bool
  | JNum int
  | JStr string
  | JArr "json list"
  | JObj "string \<Rightarrow> json option"

type_synonym obj = "string \<Rightarrow> json option"

fun truthy :: "json \<Rightarrow> bool" where
  "truthy JNull = False"
| "truthy (JBool b) = b"
| "truthy (JNum n) = (n \<noteq> 0)"
| "truthy (JStr s) = (s \<noteq> '''')"
| "truthy (JArr xs) = True"
| "truthy (JObj m) = True"

text \<open>\<open>!x\<close> and \<open>x || d\<close>, for an \<open>x\<close> that may be \<open>undefined\<close> (\<open>None\<close>).\<close>

definition js_not :: "json option \<Rightarrow> bool" where
  "js_not x = (case x of None \<Rightarrow> True | Some v \<Rightarrow> \<not> truthy v)"

definition js_or_else :: "json option \<Rightarrow> json \<Rightarrow> json" where
  "js_or_else x d = (case x of None \<Rightarrow> d | Some v \<Rightarrow> if truthy v then v else d)"

text \<open>
  What a handler can throw inside its \<open>try\<close> block: a \<open>TypeError\<close> of the language, or an
  error of the store. \<open>error_string\<close> is \<open>String(error)\<close>.
\<close>

datatype js_error = TypeError string | StoreError string

definition error_string :: "js_error \<Rightarrow> string" where
  "error_string e =
     (case e of TypeError m \<Rightarrow> ''TypeError: '' @ m | StoreError m \<Rightarrow> ''Error: '' @ m)"

text \<open>
  Modelled from the spec: the key-value store adapter (\<open>kv_store.ts\<close>) is not among the
  sources. The specification gives it \<open>get(key) -> JSON|undefined\<close> and \<open>set(key, value)\<close>
  over arbitrary JSON values, atomic per key, and lets it fail as a whole ("store
  unavailable"). \<open>kv_writes\<close> records the calls of \<open>set\<close> in order, so that "no store
  write" can be stated.
\<close>

record store =
  kv_up :: bool
  kv_data :: "string \<Rightarrow> json option"
  kv_writes :: "(string \<times> json) list"

definition kv_get :: "store \<Rightarrow> string \<Rightarrow> js_error + json option" where
  "kv_get st key = (if kv_up st then Inr (kv_data st key) else Inl (StoreError ''store unavailable''))"

definition kv_set :: "store \<Rightarrow> string \<Rightarrow> json \<Rightarrow> js_error + store" where
  "kv_set st key v =
     (if kv_up st
      then Inr (st\<lparr> kv_data := (kv_data st)(key \<mapsto> v), kv_writes := kv_writes st @ [(key, v)] \<rparr>)
      else Inl (StoreError ''store unavailable''))"

text \<open>
  A response is \<open>c.json(body, status)\<close>; the status is 200 when the source gives none.
  \<open>catch_500\<close> is the \<open>catch\<close> block of a handler: the store is as it was, since \<open>kv.set\<close>
  is the last call of every \<open>try\<close> block that can throw.
\<close>

record response =
  resp_status :: nat
  resp_body :: obj

definition catch_500 :: "string \<Rightarrow> store \<Rightarrow> js_error + response \<times> store \<Rightarrow> response \<times> store" where
  "catch_500 msg st r =
     (case r of
        Inl e \<Rightarrow>
          (\<lparr> resp_status = 500,
              resp_body = [''error'' \<mapsto> JStr msg, ''details'' \<mapsto> JStr (error_string e)] \<rparr>, st)
      | Inr x \<Rightarrow> x)"

text \<open>
  Property reads and array methods on a value of unknown shape. \<open>x.id\<close> and \<open>x.comments\<close>
  throw on \<open>null\<close>, are the field of an object, and are \<open>undefined\<close> on a number, a string,
  a boolean or an array. \<open>x.push(v)\<close>, \<open>x.filter(f)\<close> and \<open>x.findIndex(f)\<close> throw unless
  \<open>x\<close> is an array. The message of a \<open>TypeError\<close> depends on the JavaScript engine;
  no property below depends on its text.
\<close>

definition get_prop :: "json \<Rightarrow> string \<Rightarrow> js_error + json option" where
  "get_prop x key =
     (case x of
        JNull \<Rightarrow> Inl (TypeError (''Cannot read properties of null (reading '' @ key @ '')''))
      | JObj m \<Rightarrow> Inr (m key)
      | _ \<Rightarrow> Inr None)"

definition as_array :: "string \<Rightarrow> json \<Rightarrow> js_error + json list" where
  "as_array method x =
     (case x of
        JArr xs \<Rightarrow> Inr xs
      | JNull \<Rightarrow> Inl (TypeError (''Cannot read properties of null (calling '' @ method @ '')''))
      | _ \<Rightarrow> Inl (TypeError (method @ '' is not a function'')))"

text \<open>\<open>xs.filter((x) => x.id !== id)\<close>\<close>

fun filter_id_ne :: "string \<Rightarrow> json list \<Rightarrow> js_error + json list" where
  "filter_id_ne id' [] = Inr []"
| "filter_id_ne id' (x # xs) =
     (case get_prop x ''id'' of
        Inl e \<Rightarrow> Inl e
      | Inr v \<Rightarrow>
          (case filter_id_ne id' xs of
             Inl e \<Rightarrow> Inl e
           | Inr r \<Rightarrow> Inr (if v \<noteq> Some (JStr id') then x # r else r)))"

text \<open>\<open>xs.findIndex((x) => x.id === id)\<close>; JavaScript's \<open>-1\<close> is \<open>None\<close>.\<close>

fun findIndex_id :: "string \<Rightarrow> json list \<Rightarrow> js_error + nat option" where
  "findIndex_id id' [] = Inr None"
| "findIndex_id id' (x # xs) =
     (case get_prop x ''id'' of
        Inl e \<Rightarrow> Inl e
      | Inr v \<Rightarrow>
          if v = Some (JStr id') then Inr (Some 0)
          else (case findIndex_id id' xs of
                  Inl e \<Rightarrow> Inl e
                | Inr r \<Rightarrow> Inr (map_option Suc r)))"

text \<open>
  \<open>{...x}\<close> for an array element \<open>x\<close> that \<open>findIndex_id\<close> has found: such an element has
  an \<open>id\<close> field, so it is an object. (On other values the spread has no own string keys,
  but for the index keys of a string or an array.)
\<close>

definition spread :: "json \<Rightarrow> obj" where
  "spread x = (case x of JObj m \<Rightarrow> m | _ \<Rightarrow> Map.empty)"

subsection \<open>Documents\<close>

definition get_documents :: "store \<Rightarrow> response \<times> store" where
  "get_documents st =
     catch_500 ''Failed to fetch documents'' st
       (case kv_get st ''wis-documents'' of
          Inl e \<Rightarrow> Inl e
        | Inr documents \<Rightarrow>
            Inr (\<lparr> resp_status = 200,
                    resp_body = [''documents'' \<mapsto> js_or_else documents (JArr [])] \<rparr>, st))"

text \<open>
  The object literal \<open>newDocument\<close> of the upload handler. \<open>uuid\<close> is the value of
  \<open>crypto.randomUUID()\<close> and \<open>now\<close> the value of \<open>new Date().toISOString()\<close>.
\<close>

definition new_document :: "string \<Rightarrow> string \<Rightarrow> obj \<Rightarrow> obj" where
  "new_document uuid now req =
     (Map.empty
        (''id'' \<mapsto> JStr uuid,
         ''name'' := req ''name'',
         ''size'' := req ''size'',
         ''type'' := req ''type'',
         ''dataUrl'' := req ''dataUrl'',
         ''uploadedAt'' \<mapsto> js_or_else (req ''uploadedAt'') (JStr now),
         ''category'' \<mapsto> js_or_else (req ''category'') (JStr ''Uncategorized''),
         ''isFavorite'' \<mapsto> js_or_else (req ''isFavorite'') (JBool False)))"

text \<open>
  \<open>POST /documents\<close>, from its guard on. \<open>req\<close> holds the fields of the request body,
  as the destructuring of the parsed body gives them; the handler from the request on is
  \<open>post_documents_request\<close> below.
\<close>

definition post_documents :: "string \<Rightarrow> string \<Rightarrow> obj \<Rightarrow> store \<Rightarrow> response \<times> store" where
  "post_documents uuid now req st =
     catch_500 ''Failed to upload document'' st
       (if js_not (req ''name'') \<or> js_not (req ''dataUrl'')
        then Inr (\<lparr> resp_status = 400,
                     resp_body = [''error'' \<mapsto> JStr ''Missing required fields: name and dataUrl''] \<rparr>,
                  st)
        else
          (case kv_get st ''wis-documents'' of
             Inl e \<Rightarrow> Inl e
           | Inr stored \<Rightarrow>
               (let documents = js_or_else stored (JArr []);
                    newDocument = new_document uuid now req
                in case as_array ''documents.push'' documents of
                     Inl e \<Rightarrow> Inl e
                   | Inr xs \<Rightarrow>
                       (case kv_set st ''wis-documents'' (JArr (xs @ [JObj newDocument])) of
                          Inl e \<Rightarrow> Inl e
                        | Inr st' \<Rightarrow>
                            Inr (\<lparr> resp_status = 200,
                                    resp_body = [''document'' \<mapsto> JObj newDocument,
                                            ''message'' \<mapsto> JStr ''Document uploaded successfully''] \<rparr>,
                                 st')))))"

text \<open>
  The same handler from the request on. \<open>raw\<close> is the outcome of \<open>await c.req.json()\<close>:
  the parsed value of the body, or, when the body is not JSON text (the empty body is
  not), the message of the \<open>SyntaxError\<close> that the call throws. The destructuring
  \<open>const { name, size, type, dataUrl, uploadedAt, category, isFavorite } = body\<close> throws
  a \<open>TypeError\<close> when the body is \<open>null\<close>, reads the fields of an object, and finds
  every one of the seven \<open>undefined\<close> on a number, a string, a boolean or an array, none
  of which has a property of these names. Both statements are inside the \<open>try\<close> block, so
  that what they throw is answered by the \<open>catch\<close> block with status 500.
\<close>

definition destructure :: "json \<Rightarrow> js_error + obj" where
  "destructure body =
     (case body of
        JNull \<Rightarrow> Inl (TypeError ''Cannot destructure property name of null'')
      | JObj m \<Rightarrow> Inr m
      | _ \<Rightarrow> Inr Map.empty)"

definition post_documents_request ::
  "string \<Rightarrow> string \<Rightarrow> string + json \<Rightarrow> store \<Rightarrow> response \<times> store" where
  "post_documents_request uuid now raw st =
     (case raw of
        Inl msg \<Rightarrow>
          (\<lparr> resp_status = 500,
              resp_body = [''error'' \<mapsto> JStr ''Failed to upload document'',
                           ''details'' \<mapsto> JStr (''SyntaxError: '' @ msg)] \<rparr>, st)
      | Inr body \<Rightarrow>
          (case destructure body of
             Inl e \<Rightarrow> catch_500 ''Failed to upload document'' st (Inl e)
           | Inr req \<Rightarrow> post_documents uuid now req st))"

text \<open>\<open>DELETE /documents/:id\<close>\<close>

definition delete_document :: "string \<Rightarrow> store \<Rightarrow> response \<times> store" where
  "delete_document id' st =
     catch_500 ''Failed to delete document'' st
       (case kv_get st ''wis-documents'' of
          Inl e \<Rightarrow> Inl e
        | Inr stored \<Rightarrow>
            (case as_array ''documents.filter'' (js_or_else stored (JArr [])) of
               Inl e \<Rightarrow> Inl e
             | Inr documents \<Rightarrow>
                 (case filter_id_ne id' documents of
                    Inl e \<Rightarrow> Inl e
                  | Inr filteredDocuments \<Rightarrow>
                      if length filteredDocuments = length documents
                      then Inr (\<lparr> resp_status = 404,
                                   resp_body = [''error'' \<mapsto> JStr ''Document not found''] \<rparr>, st)
                      else
                        (case kv_set st ''wis-documents'' (JArr filteredDocuments) of
                           Inl e \<Rightarrow> Inl e
                         | Inr st' \<Rightarrow>
                             Inr (\<lparr> resp_status = 200,
                                     resp_body = [''message'' \<mapsto> JStr ''Document deleted successfully''] \<rparr>,
                                  st')))))"

text \<open>\<open>PUT /documents/:id\<close>. The request body \<open>req\<close> is the parsed JSON object.\<close>

definition put_document :: "string \<Rightarrow> obj \<Rightarrow> store \<Rightarrow> response \<times> store" where
  "put_document id' req st =
     catch_500 ''Failed to update document'' st
       (case kv_get st ''wis-documents'' of
          Inl e \<Rightarrow> Inl e
        | Inr stored \<Rightarrow>
            (case as_array ''documents.findIndex'' (js_or_else stored (JArr [])) of
               Inl e \<Rightarrow> Inl e
             | Inr documents \<Rightarrow>
                 (case findIndex_id id' documents of
                    Inl e \<Rightarrow> Inl e
                  | Inr None \<Rightarrow>
                      Inr (\<lparr> resp_status = 404,
                              resp_body = [''error'' \<mapsto> JStr ''Document not found''] \<rparr>, st)
                  | Inr (Some docIndex) \<Rightarrow>
                      (let updated = JObj ((spread (documents ! docIndex) ++ req)(''id'' \<mapsto> JStr id'));
                           documents' = documents[docIndex := updated]
                       in case kv_set st ''wis-documents'' (JArr documents') of
                            Inl e \<Rightarrow> Inl e
                          | Inr st' \<Rightarrow>
                              Inr (\<lparr> resp_status = 200,
                                      resp_body = [''document'' \<mapsto> updated,
                                              ''message'' \<mapsto> JStr ''Document updated successfully''] \<rparr>,
                                   st')))))"

subsection \<open>Project structure\<close>

definition get_structure_ui :: "store \<Rightarrow> response \<times> store" where
  "get_structure_ui st =
     catch_500 ''Failed to fetch UI structure'' st
       (case kv_get st ''wis-ui-structure'' of
          Inl e \<Rightarrow> Inl e
        | Inr structure \<Rightarrow>
            Inr (\<lparr> resp_status = 200,
                    resp_body = [''structure'' \<mapsto> js_or_else structure (JArr [])] \<rparr>, st))"

definition post_structure_ui :: "obj \<Rightarrow> store \<Rightarrow> response \<times> store" where
  "post_structure_ui req st =
     catch_500 ''Failed to update UI structure'' st
       (case req ''structure'' of
          None \<Rightarrow>
            Inr (\<lparr> resp_status = 400,
                    resp_body = [''error'' \<mapsto> JStr ''Missing required field: structure''] \<rparr>, st)
        | Some structure \<Rightarrow>
            if \<not> truthy structure
            then Inr (\<lparr> resp_status = 400,
                         resp_body = [''error'' \<mapsto> JStr ''Missing required field: structure''] \<rparr>,
                      st)
            else
              (case kv_set st ''wis-ui-structure'' structure of
                 Inl e \<Rightarrow> Inl e
               | Inr st' \<Rightarrow>
                   Inr (\<lparr> resp_status = 200,
                           resp_body = [''message'' \<mapsto> JStr ''UI structure updated successfully''] \<rparr>,
                        st')))"

definition get_structure_api :: "store \<Rightarrow> response \<times> store" where
  "get_structure_api st =
     catch_500 ''Failed to fetch API structure'' st
       (case kv_get st ''wis-api-structure'' of
          Inl e \<Rightarrow> Inl e
        | Inr structure \<Rightarrow>
            Inr (\<lparr> resp_status = 200,
                    resp_body = [''structure'' \<mapsto> js_or_else structure (JArr [])] \<rparr>, st))"

definition post_structure_api :: "obj \<Rightarrow> store \<Rightarrow> response \<times> store" where
  "post_structure_api req st =
     catch_500 ''Failed to update API structure'' st
       (case req ''structure'' of
          None \<Rightarrow>
            Inr (\<lparr> resp_status = 400,
                    resp_body = [''error'' \<mapsto> JStr ''Missing required field: structure''] \<rparr>, st)
        | Some structure \<Rightarrow>
            if \<not> truthy structure
            then Inr (\<lparr> resp_status = 400,
                         resp_body = [''error'' \<mapsto> JStr ''Missing required field: structure''] \<rparr>,
                      st)
            else
              (case kv_set st ''wis-api-structure'' structure of
                 Inl e \<Rightarrow> Inl e
               | Inr st' \<Rightarrow>
                   Inr (\<lparr> resp_status = 200,
                           resp_body = [''message'' \<mapsto> JStr ''API structure updated successfully''] \<rparr>,
                        st')))"

subsection \<open>Community posts\<close>

definition get_posts :: "store \<Rightarrow> response \<times> store" where
  "get_posts st =
     catch_500 ''Failed to fetch community posts'' st
       (case kv_get st ''wis-community-posts'' of
          Inl e \<Rightarrow> Inl e
        | Inr posts \<Rightarrow>
            Inr (\<lparr> resp_status = 200,
                    resp_body = [''posts'' \<mapsto> js_or_else posts (JArr [])] \<rparr>, st))"

text \<open>
  \<open>POST /community/posts/:id/comments\<close>. \<open>push_comment\<close> is
  \<open>posts[postIndex].comments.push(newComment)\<close>: it throws unless the post is an object
  whose \<open>comments\<close> field is an array.
\<close>

definition new_comment :: "string \<Rightarrow> string \<Rightarrow> obj \<Rightarrow> obj" where
  "new_comment uuid now req =
     (Map.empty
        (''id'' \<mapsto> JStr uuid,
         ''name'' := req ''name'',
         ''message'' := req ''message'',
         ''timestamp'' \<mapsto> JStr now,
         ''attachments'' \<mapsto> js_or_else (req ''attachments'') (JArr [])))"

definition push_comment :: "json \<Rightarrow> json \<Rightarrow> js_error + json" where
  "push_comment post newComment =
     (case get_prop post ''comments'' of
        Inl e \<Rightarrow> Inl e
      | Inr None \<Rightarrow> Inl (TypeError ''Cannot read properties of undefined (calling push)'')
      | Inr (Some cs) \<Rightarrow>
          (case as_array ''push'' cs of
             Inl e \<Rightarrow> Inl e
           | Inr xs \<Rightarrow> Inr (JObj ((spread post)(''comments'' \<mapsto> JArr (xs @ [newComment]))))))"

definition post_comment :: "string \<Rightarrow> string \<Rightarrow> string \<Rightarrow> obj \<Rightarrow> store \<Rightarrow> response \<times> store" where
  "post_comment uuid now postId req st =
     catch_500 ''Failed to add comment'' st
       (if js_not (req ''name'') \<or> js_not (req ''message'')
        then Inr (\<lparr> resp_status = 400,
                     resp_body = [''error'' \<mapsto> JStr ''Missing required fields: name and message''] \<rparr>,
                  st)
        else
          (case kv_get st ''wis-community-posts'' of
             Inl e \<Rightarrow> Inl e
           | Inr stored \<Rightarrow>
               (case as_array ''posts.findIndex'' (js_or_else stored (JArr [])) of
                  Inl e \<Rightarrow> Inl e
                | Inr posts \<Rightarrow>
                    (case findIndex_id postId posts of
                       Inl e \<Rightarrow> Inl e
                     | Inr None \<Rightarrow>
                         Inr (\<lparr> resp_status = 404,
                                 resp_body = [''error'' \<mapsto> JStr ''Post not found''] \<rparr>, st)
                     | Inr (Some postIndex) \<Rightarrow>
                         (let newComment = new_comment uuid now req
                          in case push_comment (posts ! postIndex) (JObj newComment) of
                               Inl e \<Rightarrow> Inl e
                             | Inr post' \<Rightarrow>
                                 (case kv_set st ''wis-community-posts''
                                         (JArr (posts[postIndex := post'])) of
                                    Inl e \<Rightarrow> Inl e
                                  | Inr st' \<Rightarrow>
                                      Inr (\<lparr> resp_status = 200,
                                              resp_body = [''comment'' \<mapsto> JObj newComment,
                                                      ''message'' \<mapsto> JStr ''Comment added successfully''] \<rparr>,
                                           st')))))))"

subsection \<open>Stored collections\<close>

text \<open>
  The store is up and holds the collection \<open>xs\<close> under \<open>key\<close>: the array \<open>xs\<close>, or no
  value or \<open>null\<close> when \<open>xs\<close> is empty. A record of a collection is an object; \<open>has_id d x\<close>
  says that \<open>x\<close> is a record whose \<open>id\<close> is the string \<open>d\<close>.
\<close>

definition holds_collection :: "store \<Rightarrow> string \<Rightarrow> json list \<Rightarrow> bool" where
  "holds_collection st key xs =
     (kv_up st
      \<and> (kv_data st key = Some (JArr xs)
         \<or> ((kv_data st key = None \<or> kv_data st key = Some JNull) \<and> xs = [])))"

definition is_obj :: "json \<Rightarrow> bool" where
  "is_obj x = (case x of JObj m \<Rightarrow> True | _ \<Rightarrow> False)"

definition has_id :: "string \<Rightarrow> json \<Rightarrow> bool" where
  "has_id d x = (case x of JObj m \<Rightarrow> m ''id'' = Some (JStr d) | _ \<Rightarrow> False)"

definition empty_store :: store where
  "empty_store = \<lparr> kv_up = True, kv_data = Map.empty, kv_writes = [] \<rparr>"

text \<open>Sample data: documents, a post, a store that holds them, an upload request.\<close>

definition sample_doc :: "string \<Rightarrow> string \<Rightarrow> json" where
  "sample_doc i n =
     JObj [''id'' \<mapsto> JStr i, ''name'' \<mapsto> JStr n, ''size'' \<mapsto> JStr ''1 KB'',
           ''type'' \<mapsto> JStr ''text/plain'', ''dataUrl'' \<mapsto> JStr ''data:,'',
           ''uploadedAt'' \<mapsto> JStr ''2024-01-01T00:00:00.000Z'',
           ''category'' \<mapsto> JStr ''Uncategorized'', ''isFavorite'' \<mapsto> JBool False]"

definition sample_post :: "string \<Rightarrow> json" where
  "sample_post i =
     JObj [''id'' \<mapsto> JStr i, ''name'' \<mapsto> JStr ''Ann'', ''message'' \<mapsto> JStr ''hello world'',
           ''timestamp'' \<mapsto> JStr ''2024-01-01T00:00:00.000Z'',
           ''attachments'' \<mapsto> JArr [], ''comments'' \<mapsto> JArr []]"

definition sample_store :: store where
  "sample_store =
     \<lparr> kv_up = True,
        kv_data = [''wis-documents'' \<mapsto> JArr [sample_doc ''d1'' ''a.txt'', sample_doc ''d2'' ''b.txt''],
                   ''wis-community-posts'' \<mapsto> JArr [sample_post ''p1'']],
        kv_writes = [] \<rparr>"

text \<open>
  The object literal of the update handler, for a stored record with the fields \<open>m\<close>, a
  request body \<open>p\<close> and the id \<open>d\<close> of the route: \<open>{...m, ...p, id: d}\<close>.
\<close>

definition merged_document :: "obj \<Rightarrow> obj \<Rightarrow> string \<Rightarrow> obj" where
  "merged_document m p d = (m ++ p)(''id'' \<mapsto> JStr d)"

definition sample_upload :: obj where
  "sample_upload = [''name'' \<mapsto> JStr ''c.txt'', ''dataUrl'' \<mapsto> JStr ''data:,'']"

section \<open>The \<open>ProjectStructure\<close> component\<close>

text \<open>
  The interfaces \<open>FileAttachment\<close> and \<open>FolderInfo\<close> of the component, with prefixed
  field names.
\<close>

record FileAttachment =
  att_id :: string
  att_name :: string
  att_size :: nat
  att_uploadedAt :: nat
  att_data :: string

record FolderInfo =
  folder_id :: string
  folder_name :: string
  purpose :: string
  description :: string
  attachments :: "FileAttachment list option"

text \<open>
  The state of the component that the folder handlers read and write. \<open>ui_set\<close> and
  \<open>api_set\<close> record that \<open>setUIFolders\<close> or \<open>setAPIFolders\<close> has been called with a new
  array since the last render: these are the changes of the dependencies \<open>[uiFolders]\<close> and
  \<open>[apiFolders]\<close> that make React run the two save effects after the render.
\<close>

record component =
  activeRepo :: repo
  uiFolders :: "FolderInfo list"
  apiFolders :: "FolderInfo list"
  expandedFolder :: "string option"
  editingFolder :: "string option"
  editData :: "FolderInfo option"
  ui_set :: bool
  api_set :: bool

definition currentFolders :: "component \<Rightarrow> FolderInfo list" where
  "currentFolders c = (if activeRepo c = UI then uiFolders c else apiFolders c)"

definition setCurrentFolders :: "(FolderInfo list \<Rightarrow> FolderInfo list) \<Rightarrow> component \<Rightarrow> component" where
  "setCurrentFolders f c =
     (if activeRepo c = UI
      then c\<lparr> uiFolders := f (uiFolders c), ui_set := True \<rparr>
      else c\<lparr> apiFolders := f (apiFolders c), api_set := True \<rparr>)"

text \<open>
  \<open>handleSave\<close>: \<open>editingFolder && editData\<close> is falsy when \<open>editingFolder\<close> is \<open>null\<close> or
  the empty string, or \<open>editData\<close> is \<open>null\<close>.
\<close>

definition handleSave :: "component \<Rightarrow> component" where
  "handleSave c =
     (case (editingFolder c, editData c) of
        (Some editing, Some edited) \<Rightarrow>
          if editing = '''' then c
          else (setCurrentFolders
                  (map (\<lambda>folder. if folder_name folder = editing then edited else folder)) c)
               \<lparr> editingFolder := None, editData := None \<rparr>
      | _ \<Rightarrow> c)"

text \<open>\<open>handleAddFolder\<close>; \<open>now\<close> is \<open>Date.now()\<close> in decimal digits.\<close>

definition handleAddFolder :: "string \<Rightarrow> component \<Rightarrow> component" where
  "handleAddFolder now c =
     (let newFolder = \<lparr> folder_id = ''newFolder'' @ now, folder_name = ''New Folder'',
                         purpose = '''', description = '''', attachments = None \<rparr>
      in setCurrentFolders (\<lambda>prev. prev @ [newFolder]) c)"

definition handleDeleteFolder :: "string \<Rightarrow> component \<Rightarrow> component" where
  "handleDeleteFolder folderName c =
     (let c' = setCurrentFolders (filter (\<lambda>folder. folder_name folder \<noteq> folderName)) c
      in if expandedFolder c = Some folderName then c'\<lparr> expandedFolder := None \<rparr> else c')"

text \<open>
  \<open>moveFolder\<close>. The index is the position of a rendered row, so a natural number; the
  target index is an integer, \<open>-1\<close> for the first row moved up. The swap reads both
  elements before it writes them. With an index outside the array and a target inside it,
  the assignment of the source would store \<open>undefined\<close> in the array, which is no
  \<open>FolderInfo[]\<close>: the model gives \<open>None\<close> there.
\<close>

datatype direction = Up | Down

definition moveFolder :: "nat \<Rightarrow> direction \<Rightarrow> component \<Rightarrow> component option" where
  "moveFolder index dir c =
     (let newFolders = currentFolders c;
          targetIndex = (case dir of Up \<Rightarrow> int index - 1 | Down \<Rightarrow> int index + 1)
      in if targetIndex \<ge> 0 \<and> targetIndex < int (length newFolders)
         then (if index < length newFolders
               then Some (setCurrentFolders
                            (\<lambda>_. newFolders[index := newFolders ! nat targetIndex,
                                             nat targetIndex := newFolders ! index]) c)
               else None)
         else Some c)"

text \<open>
  \<open>JSON.stringify\<close> of a folder array, as \<open>structureAPI.updateUI\<close> and \<open>updateAPI\<close> send
  it in the field \<open>structure\<close> of the request body. An absent \<open>attachments\<close> is dropped.
\<close>

definition attachment_json :: "FileAttachment \<Rightarrow> json" where
  "attachment_json a =
     JObj [''id'' \<mapsto> JStr (att_id a), ''name'' \<mapsto> JStr (att_name a),
           ''size'' \<mapsto> JNum (int (att_size a)), ''uploadedAt'' \<mapsto> JNum (int (att_uploadedAt a)),
           ''data'' \<mapsto> JStr (att_data a)]"

definition folder_json :: "FolderInfo \<Rightarrow> json" where
  "folder_json f =
     JObj ([''id'' \<mapsto> JStr (folder_id f), ''name'' \<mapsto> JStr (folder_name f),
            ''purpose'' \<mapsto> JStr (purpose f), ''description'' \<mapsto> JStr (description f)]
           (''attachments'' := map_option (\<lambda>as. JArr (map attachment_json as)) (attachments f)))"

definition folders_json :: "FolderInfo list \<Rightarrow> json" where
  "folders_json fs = JArr (map folder_json fs)"

text \<open>
  The two save effects, run after a render. Each runs when its folder array has been set,
  and calls the server when the array is not empty; a failed call is logged and ignored.
  The call is the \<open>POST\<close> handler of the server, on the store \<open>st\<close>.
\<close>

definition save_ui_effect :: "component \<Rightarrow> store \<Rightarrow> store" where
  "save_ui_effect c st =
     (if length (uiFolders c) > 0
      then snd (post_structure_ui [''structure'' \<mapsto> folders_json (uiFolders c)] st)
      else st)"

definition save_api_effect :: "component \<Rightarrow> store \<Rightarrow> store" where
  "save_api_effect c st =
     (if length (apiFolders c) > 0
      then snd (post_structure_api [''structure'' \<mapsto> folders_json (apiFolders c)] st)
      else st)"

definition run_effects :: "component \<Rightarrow> store \<Rightarrow> component \<times> store" where
  "run_effects c st =
     (let st1 = (if ui_set c then save_ui_effect c st else st);
          st2 = (if api_set c then save_api_effect c st1 else st1)
      in (c\<lparr> ui_set := False, api_set := False \<rparr>, st2))"

text \<open>
  The local mutations of a folder array: add, edit (the save of an edit in progress),
  delete, and reorder. \<open>mutate\<close> runs the handler of a mutation.
\<close>

datatype mutation = Add string | Edit | Delete string | Reorder nat direction

definition mutate :: "mutation \<Rightarrow> component \<Rightarrow> component option" where
  "mutate m c =
     (case m of
        Add now \<Rightarrow> Some (handleAddFolder now c)
      | Edit \<Rightarrow> Some (handleSave c)
      | Delete folderName \<Rightarrow> Some (handleDeleteFolder folderName c)
      | Reorder index dir \<Rightarrow> moveFolder index dir c)"

definition structure_key :: "repo \<Rightarrow> string" where
  "structure_key r = (case r of UI \<Rightarrow> ''wis-ui-structure'' | API \<Rightarrow> ''wis-api-structure'')"

text \<open>Sample data: a folder with a given name and no text.\<close>

definition named_folder :: "string \<Rightarrow> FolderInfo" where
  "named_folder n = \<lparr> folder_id = n, folder_name = n, purpose = '''', description = '''',
     attachments = None \<rparr>"

text \<open>
  \<open>mutates m c\<close>: the handler of \<open>m\<close> sets the folder array in state \<open>c\<close>. Adding and
  deleting always do; saving does when an edit is in progress; moving does when the row
  and its neighbour in the direction of the move are both in the array.
\<close>

definition mutates :: "mutation \<Rightarrow> component \<Rightarrow> bool" where
  "mutates m c =
     (case m of
        Add now \<Rightarrow> True
      | Edit \<Rightarrow>
          (case (editingFolder c, editData c) of
             (Some editing, Some edited) \<Rightarrow> editing \<noteq> ''''
           | _ \<Rightarrow> False)
      | Delete folderName \<Rightarrow> True
      | Reorder index dir \<Rightarrow>
          index < length (currentFolders c)
          \<and> (case dir of Up \<Rightarrow> 1 \<le> index | Down \<Rightarrow> index + 1 < length (currentFolders c)))"

text \<open>Sample data: a component showing the UI repository, and a store holding a UI structure.\<close>

definition sample_component :: "FolderInfo list \<Rightarrow> component" where
  "sample_component fs =
     \<lparr> activeRepo = UI, uiFolders = fs, apiFolders = [named_folder ''Controllers''],
        expandedFolder = None, editingFolder = None, editData = None,
        ui_set = False, api_set = False \<rparr>"

text \<open>
  The store after one \<open>kv.set(key, v)\<close>: \<open>v\<close> replaces the value under \<open>key\<close> whole, and
  the write is the last one recorded.
\<close>

definition overwritten :: "store \<Rightarrow> string \<Rightarrow> json \<Rightarrow> store" where
  "overwritten st key v =
     st\<lparr> kv_data := (kv_data st)(key \<mapsto> v), kv_writes := kv_writes st @ [(key, v)] \<rparr>"

definition sample_ui_store :: "FolderInfo list \<Rightarrow> store" where
  "sample_ui_store fs =
     \<lparr> kv_up = True, kv_data = [''wis-ui-structure'' \<mapsto> folders_json fs], kv_writes = [] \<rparr>"

section \<open>Properties of the string primitives and of the snippet\<close>

lemma occurs_at_drop: "occurs_at q (drop k s) j = occurs_at q s (k + j)"
  by (simp add: occurs_at_def add.commute)

lemma occurs_at_bound:
  assumes "occurs_at q s j" and "q \<noteq> []"
  shows "j + length q \<le> length s"
proof -
  from assms(1) have "length (take (length q) (drop j s)) = length q"
    by (simp add: occurs_at_def)
  then have "length q \<le> length s - j" by simp
  moreover from assms(2) have "0 < length q" by simp
  ultimately show ?thesis by arith
qed

lemma index_of_Some:
  "index_of s q = Some i \<Longrightarrow>
     occurs_at q s i \<and> i \<le> length s \<and> (\<forall>j<i. \<not> occurs_at q s j)"
proof (induction s arbitrary: i)
  case Nil
  then show ?case by (simp add: occurs_at_def split: if_splits)
next
  case (Cons c cs)
  show ?case
  proof (cases "take (length q) (c # cs) = q")
    case True
    with Cons.prems show ?thesis by (simp add: occurs_at_def)
  next
    case False
    with Cons.prems obtain k where k: "index_of cs q = Some k" "i = Suc k"
      by auto
    from Cons.IH [OF k(1)] have ih: "occurs_at q cs k" "k \<le> length cs" "\<forall>j<k. \<not> occurs_at q cs j"
      by auto
    have "\<not> occurs_at q (c # cs) j" if "j < i" for j
    proof (cases j)
      case 0
      with False show ?thesis by (simp add: occurs_at_def)
    next
      case (Suc j')
      with that k(2) ih(3) show ?thesis by (simp add: occurs_at_def)
    qed
    with ih k(2) show ?thesis by (simp add: occurs_at_def)
  qed
qed

lemma index_of_None: "index_of s q = None \<Longrightarrow> \<not> occurs_at q s j"
proof (induction s arbitrary: j)
  case Nil
  then show ?case by (simp add: occurs_at_def split: if_splits)
next
  case (Cons c cs)
  then have nz: "take (length q) (c # cs) \<noteq> q" and r: "index_of cs q = None"
    by (auto split: if_splits)
  show ?case
  proof (cases j)
    case 0
    with nz show ?thesis by (simp add: occurs_at_def)
  next
    case (Suc j')
    with Cons.IH [OF r, of j'] show ?thesis by (simp add: occurs_at_def)
  qed
qed

lemma indexOf_Some:
  assumes "indexOf s q pos = Some i"
  shows "occurs_at q s i" and "min pos (length s) \<le> i" and "i \<le> length s"
    and "\<And>j. pos \<le> j \<Longrightarrow> j < i \<Longrightarrow> \<not> occurs_at q s j"
proof -
  from assms obtain k where k: "index_of (drop pos s) q = Some k" "i = k + min pos (length s)"
    by (auto simp: indexOf_def)
  from index_of_Some [OF k(1)]
  have a: "occurs_at q (drop pos s) k" "k \<le> length (drop pos s)"
    "\<forall>j<k. \<not> occurs_at q (drop pos s) j" by auto
  show "min pos (length s) \<le> i" using k(2) by simp
  show "i \<le> length s" using k(2) a(2) by auto
  show "occurs_at q s i"
  proof (cases "pos \<le> length s")
    case True
    with a(1) k(2) show ?thesis by (simp add: occurs_at_drop add.commute min_def)
  next
    case False
    with a(2) k(2) have "k = 0" "i = length s" by auto
    with a(1) False show ?thesis by (simp add: occurs_at_def)
  qed
  show "\<not> occurs_at q s j" if "pos \<le> j" "j < i" for j
  proof -
    from that k(2) a(2) have "pos \<le> length s" "j - pos < k" by (auto simp: min_def split: if_splits)
    with a(3) have "\<not> occurs_at q (drop pos s) (j - pos)" by blast
    with that show ?thesis by (simp add: occurs_at_drop)
  qed
qed

lemma indexOf_within:
  assumes "indexOf s q pos = Some i" and "q \<noteq> []"
  shows "pos \<le> i \<and> i + length q \<le> length s"
proof -
  from occurs_at_bound [OF indexOf_Some(1) [OF assms(1)] assms(2)]
  have b: "i + length q \<le> length s" .
  from assms(2) have "0 < length q" by simp
  with b have "i < length s" by arith
  with indexOf_Some(2) [OF assms(1)] have "pos \<le> i" by (simp add: min_def split: if_splits)
  with b show ?thesis by simp
qed

lemma flat_append: "flat (a @ b) = flat a @ flat b"
  by (simp add: flat_def)

lemma flat_Cons: "flat (p # ps) = part_text p @ flat ps"
  by (simp add: flat_def)

lemma flat_Nil: "flat [] = []"
  by (simp add: flat_def)

lemma highlight_loop_None:
  "highlight_loop s ls q n cur None parts = Some (parts, cur)"
  by (subst highlight_loop.simps) simp

lemma highlight_loop_Some:
  "highlight_loop s ls q n cur (Some si) parts =
     highlight_loop s ls q n (si + n) (indexOf ls q (si + n))
       ((if si > cur then parts @ [Plain (substring s cur si)] else parts)
          @ [Highlight (substring s si (si + n))])"
  by (subst highlight_loop.simps) (simp add: Let_def)

lemma highlight_loop_returns:
  assumes q: "lq \<noteq> []" and n: "0 < n"
  shows "\<exists>ps c. highlight_loop s sl lq n cur (indexOf sl lq cur) parts = Some (parts @ ps, c)
          \<and> flat ps @ drop c s = drop cur s"
proof (induction "Suc (length sl) - cur" arbitrary: cur parts rule: less_induct)
  case less
  show ?case
  proof (cases "indexOf sl lq cur")
    case None
    then show ?thesis
      by (intro exI [of _ "[]"] exI [of _ cur]) (simp add: highlight_loop_None flat_Nil)
  next
    case (Some si)
    from indexOf_within [OF Some q] have lo: "cur \<le> si" and hi: "si + length lq \<le> length sl"
      by simp_all
    from q have "0 < length lq" by simp
    with hi have "si < length sl" by arith
    with lo n have "Suc (length sl) - (si + n) < Suc (length sl) - cur" by arith
    let ?pl = "if si > cur then [Plain (substring s cur si)] else []"
    let ?h = "Highlight (substring s si (si + n))"
    let ?parts2 = "(if si > cur then parts @ [Plain (substring s cur si)] else parts) @ [?h]"
    from less.hyps [OF \<open>Suc (length sl) - (si + n) < Suc (length sl) - cur\<close>, of ?parts2]
    obtain ps c where ih:
      "highlight_loop s sl lq n (si + n) (indexOf sl lq (si + n)) ?parts2 = Some (?parts2 @ ps, c)"
      "flat ps @ drop c s = drop (si + n) s"
      by blast
    let ?ps = "?pl @ [?h] @ ps"
    have run: "highlight_loop s sl lq n cur (indexOf sl lq cur) parts = Some (parts @ ?ps, c)"
      unfolding Some highlight_loop_Some ih(1) by simp
    have hsub: "substring s si (si + n) = take n (drop si s)"
      by (simp add: substring_def)
    have psub: "substring s cur si = take (si - cur) (drop cur s)"
      using lo by (simp add: substring_def min_def max_def)
    have split1: "drop si s = take n (drop si s) @ drop (si + n) s"
      by (metis append_take_drop_id drop_drop add.commute)
    have split2: "drop cur s = take (si - cur) (drop cur s) @ drop si s"
      using lo by (metis append_take_drop_id drop_drop le_add_diff_inverse2)
    have fl_h: "flat ([?h] @ ps) @ drop c s = drop si s"
      using ih(2) split1 by (simp add: flat_Cons hsub)
    have fl: "flat ?ps @ drop c s = drop cur s"
    proof (cases "si > cur")
      case True
      then show ?thesis using fl_h split2 by (simp add: flat_Cons psub)
    next
      case False
      with lo have "si = cur" by simp
      then show ?thesis using fl_h by simp
    qed
    from run fl show ?thesis by blast
  qed
qed

text \<open>
  When the lower-cased query is found in the lower-cased text, at index \<open>i\<close> of the
  lower-cased text, the function returns a fragment. Its text is the slice of the text
  from \<open>max 0 (i - 30)\<close> to \<open>min (length T) (i + length Q + 70)\<close>, with \<open>...\<close> in front
  when the slice does not start at 0 and behind when it ends before the end of the text.
\<close>

lemma getHighlightedSnippet_found:
  assumes q: "Q \<noteq> []" and lq: "lc Q \<noteq> []"
    and idx: "indexOf (lc T) (lc Q) 0 = Some i"
  shows "\<exists>parts. getHighlightedSnippet lc T Q m = Some (Fragment parts)
      \<and> flat parts =
          (if 0 < nat (max 0 (int i - 30)) then units ''...'' else [])
          @ substring T (nat (max 0 (int i - 30))) (min (length T) (i + length Q + 70))
          @ (if min (length T) (i + length Q + 70) < length T then units ''...'' else [])"
proof -
  define a where "a = nat (max 0 (int i - 30))"
  define b where "b = min (length T) (i + length Q + 70)"
  define snip where "snip = (if 0 < a then units ''...'' else []) @ substring T a b
       @ (if b < length T then units ''...'' else [])"
  from q have n: "0 < length Q" by simp
  from highlight_loop_returns [OF lq n, of snip "lc snip" 0 "[]"]
  obtain ps c where run:
    "highlight_loop snip (lc snip) (lc Q) (length Q) 0 (indexOf (lc snip) (lc Q) 0) [] = Some (ps, c)"
    "flat ps @ drop c snip = snip"
    by auto
  let ?parts = "if c < length snip then ps @ [Plain (drop c snip)] else ps"
  have fl: "flat ?parts = snip"
  proof (cases "c < length snip")
    case True
    with run(2) show ?thesis by (simp add: flat_append flat_Cons flat_Nil)
  next
    case False
    then have "drop c snip = []" by simp
    with run(2) False show ?thesis by simp
  qed
  have unf: "getHighlightedSnippet lc T Q m = Some (Fragment ?parts)"
    unfolding getHighlightedSnippet_def Let_def idx option.case a_def [symmetric] b_def [symmetric]
    using run(1) by (auto simp: snip_def)
  show ?thesis
    using unf fl unfolding snip_def a_def b_def by blast
qed

lemma getHighlightedSnippet_not_found:
  assumes "indexOf (lc T) (lc Q) 0 = None"
  shows "getHighlightedSnippet lc T Q m =
     Some (Text (take m T @ (if m < length T then units ''...'' else [])))"
  using assms by (simp add: getHighlightedSnippet_def substring_def)

lemma getHighlightedSnippet_total:
  assumes "Q \<noteq> []" and "lc Q \<noteq> []"
  shows "\<exists>s. getHighlightedSnippet lc T Q m = Some s"
proof (cases "indexOf (lc T) (lc Q) 0")
  case None
  with getHighlightedSnippet_not_found [of lc T Q m] show ?thesis by blast
next
  case (Some i)
  with getHighlightedSnippet_found [of Q lc T i m] assms show ?thesis by blast
qed

lemma lower_latin1_Nil_iff: "(lower_latin1 s = []) = (s = [])"
  by (cases s) (simp_all add: lower_latin1_def lower_unit_def)

text \<open>
  The function at a text with a letter outside ASCII: in \<open>CAF\<close>, U+00C9 (capital E with an
  acute accent) and \<open> menu\<close>, the query \<open>caf\<close>, U+00E9 (the small letter) is found up to case
  and highlighted in the case of the text.
\<close>

lemma getHighlightedSnippet_accented:
  "getHighlightedSnippet lower_latin1 (units ''CAF'' @ [0xC9] @ units '' menu'')
      (units ''caf'' @ [0xE9]) 100 =
     Some (Fragment [Highlight (units ''CAF'' @ [0xC9]), Plain (units '' menu'')])"
  by code_simp

text \<open>
  Claim C1, evaluated at two inputs. In \<open>dotted_I_text\<close> the query \<open>x\<close> occurs up to case
  at index 31 only, so that the window of the claim is from 1 to 32 and the snippet of the
  claim is \<open>...\<close>, 30 times U+0130 and \<open>x\<close>, with \<open>x\<close> highlighted. The lower-cased text
  has 63 code units and the query is found in it at index 62, which the function uses as
  an index of the text itself: the slice from 32 to 32 is empty and the result is the
  plain text \<open>...\<close>, without the query and without a highlight. In \<open>dots_text\<close>, all in
  lower-case ASCII, \<open>dots_query\<close> occurs at index 31 only, and the window is from 1 to 63.
  The function looks for the query in the snippet after it has put \<open>...\<close> in front: it
  finds the third full stop of that prefix followed by 30 times \<open>a\<close> and a full stop, and
  highlights these 32 code units, of which the first is not text of \<open>dots_text\<close>; the
  occurrence of the query in the text, which starts at the last of them, is not
  highlighted.
\<close>

theorem getHighlightedSnippet_misses:
  "latin1_or_0130 dotted_I_text
   \<and> length dotted_I_text = 32
   \<and> filter (ci_occurs_at lower_latin1 (units ''x'') dotted_I_text) [0..<length dotted_I_text]
       = [31]
   \<and> indexOf (lower_latin1 dotted_I_text) (lower_latin1 (units ''x'')) 0 = Some 62
   \<and> getHighlightedSnippet lower_latin1 dotted_I_text (units ''x'') 100 =
       Some (Fragment [Plain (units ''...'')])
   \<and> latin1_or_0130 dots_text
   \<and> length dots_text = 63
   \<and> filter (ci_occurs_at lower_latin1 dots_query dots_text) [0..<length dots_text] = [31]
   \<and> getHighlightedSnippet lower_latin1 dots_text dots_query 100 =
       Some (Fragment [Plain (units ''..''), Highlight dots_query,
                       Plain (replicate 30 0x61 @ units ''.'')])"
  by code_simp

section \<open>Properties of the query engine\<close>

lemma trim_Nil: "trim [] = []"
  by (simp add: trim_def)

lemma trim_nonempty: "trim q \<noteq> [] \<Longrightarrow> q \<noteq> []"
  using trim_Nil by blast

lemma includes_str_nonempty:
  assumes "includes_str s q" and "q \<noteq> []"
  shows "s \<noteq> []"
proof
  assume "s = []"
  with assms show False by (simp add: includes_str_def indexOf_def)
qed

lemma includes_lower_nonempty:
  assumes lc: "\<And>s. (lc s = []) = (s = [])"
    and "includes_str (lc s) (lc q)" and "q \<noteq> []"
  shows "s \<noteq> []"
proof -
  from assms(3) lc have "lc q \<noteq> []" by simp
  from includes_str_nonempty [OF assms(2) this] lc show ?thesis by simp
qed

lemma matching_nonempty:
  assumes lc: "\<And>s. (lc s = []) = (s = [])"
    and "matching lc x (lc q) = Some m" and "q \<noteq> []"
  shows "m \<noteq> []" and "x = Some m" and "opt_includes lc x (lc q)"
  using assms(2,3) includes_lower_nonempty [of lc m q, OF lc]
  by (auto simp: matching_def opt_includes_def split: option.splits if_splits)

lemma forEach_append:
  assumes "\<And>x acc. \<exists>rs. body x acc = Some (acc @ rs) \<and> map key rs = g x"
  shows "\<exists>rs. forEach body xs acc = Some (acc @ rs) \<and> map key rs = concat (map g xs)"
proof (induction xs arbitrary: acc)
  case Nil
  show ?case by simp
next
  case (Cons x xs)
  from assms [of x acc] obtain r1 where r1: "body x acc = Some (acc @ r1)" "map key r1 = g x"
    by blast
  from Cons.IH [of "acc @ r1"] obtain r2 where
    r2: "forEach body xs (acc @ r1) = Some ((acc @ r1) @ r2)" "map key r2 = concat (map g xs)"
    by blast
  from r1 r2 have "forEach body (x # xs) acc = Some (acc @ (r1 @ r2))"
    and "map key (r1 @ r2) = concat (map g (x # xs))"
    by simp_all
  then show ?case by blast
qed

lemma concat_map_if: "concat (map (\<lambda>x. if P x then [h x] else []) xs) = map h (filter P xs)"
  by (induction xs) simp_all

lemma search_folder_step:
  assumes lc: "\<And>s. (lc s = []) = (s = [])" and q: "q \<noteq> []"
  shows "\<exists>rs. search_folder lc r q f acc = Some (acc @ rs)
      \<and> map result_key rs = (if folder_matches lc q f then [(TFolder, Some r, sf_name f)] else [])"
proof -
  let ?sl = "lc q"
  from q lc have lq: "lc q \<noteq> []" by simp
  define mt where "mt =
            (if includes_str (lc (sf_name f)) ?sl
             then js_or (sf_description f) (js_or (sf_purpose f) [])
             else if includes_str (lc (sf_purpose f)) ?sl
             then sf_purpose f
             else if includes_str (lc (sf_description f)) ?sl
             then sf_description f
             else [])"
  have cond: "(mt \<noteq> [] \<or> includes_str (lc (sf_name f)) ?sl) = folder_matches lc q f"
    using includes_lower_nonempty [of lc "sf_purpose f" q, OF lc _ q]
      includes_lower_nonempty [of lc "sf_description f" q, OF lc _ q]
    by (auto simp: mt_def folder_matches_def)
  obtain s where s: "getHighlightedSnippet lc mt q 100 = Some s"
    using getHighlightedSnippet_total [of q lc mt 100] q lq by blast
  show ?thesis
  proof (cases "folder_matches lc q f")
    case True
    with cond s show ?thesis
      unfolding search_folder_def Let_def mt_def [symmetric]
      by (cases "mt = []") (simp_all add: result_key_def)
  next
    case False
    with cond show ?thesis
      unfolding search_folder_def Let_def mt_def [symmetric]
      by simp
  qed
qed

lemma search_document_step:
  "\<exists>rs. search_document lc q d acc = Some (acc @ rs)
      \<and> map result_key rs = (if document_matches lc q d then [(TDocument, None, doc_name d)] else [])"
  by (simp add: search_document_def document_matches_def result_key_def)

lemma search_comments_None:
  "(search_comments lc (lc q) cs = None) = (\<not> list_ex (comment_matches lc q) cs)"
  by (induction cs)
    (auto simp: comment_matches_def opt_includes_def split: option.splits)

lemma search_comments_Some:
  assumes lc: "\<And>s. (lc s = []) = (s = [])"
    and "search_comments lc (lc q) cs = Some (t, r)" and "q \<noteq> []"
  shows "t \<noteq> []"
  using assms(2,3)
proof (induction cs)
  case Nil
  then show ?case by simp
next
  case (Cons c cs)
  then show ?case
    using matching_nonempty(1) [of lc "comment_message c" q, OF lc]
    by (auto simp: js_or_def units_def split: option.splits if_splits)
qed

lemma body_match_nonempty:
  assumes lc: "\<And>s. (lc s = []) = (s = [])" and q: "q \<noteq> []"
  shows "(fst (body_match lc (lc q) d) \<noteq> []) =
     (opt_includes lc (post_message d) (lc q)
      \<or> (case comments d of None \<Rightarrow> False | Some cs \<Rightarrow> list_ex (comment_matches lc q) cs))"
proof (cases "matching lc (post_message d) (lc q)")
  case (Some m)
  from matching_nonempty [of lc "post_message d" q m, OF lc Some q] Some show ?thesis
    by (auto simp: body_match_def post_match_def split: option.splits)
next
  case None
  then have pm: "post_match lc (lc q) d = ([], Literal [])"
    and no: "\<not> opt_includes lc (post_message d) (lc q)"
    by (simp_all add: post_match_def opt_includes_def)
  show ?thesis
  proof (cases "comments d")
    case None
    with pm no show ?thesis by (simp add: body_match_def)
  next
    case (Some cs)
    show ?thesis
    proof (cases "search_comments lc (lc q) cs")
      case None
      with Some pm no search_comments_None [of lc q cs] show ?thesis
        by (simp add: body_match_def)
    next
      case (Some found)
      obtain t r where tr: "found = (t, r)" by (cases found)
      from Some tr search_comments_Some [of lc q cs t r, OF lc _ q] have "t \<noteq> []" by simp
      moreover from Some search_comments_None [of lc q cs]
      have "list_ex (comment_matches lc q) cs"
        by simp
      ultimately show ?thesis using Some \<open>comments d = Some cs\<close> pm no tr
        by (simp add: body_match_def)
    qed
  qed
qed

lemma search_discussion_step:
  assumes lc: "\<And>s. (lc s = []) = (s = [])" and q: "q \<noteq> []"
  shows "\<exists>rs. search_discussion lc q d acc = Some (acc @ rs)
      \<and> map result_key rs =
          (if discussion_matches lc q d then [(TDiscussion, None, discussion_title d)] else [])"
proof -
  from q lc have lq: "lc q \<noteq> []" by simp
  obtain mt mr where bm: "body_match lc (lc q) d = (mt, mr)"
    by (cases "body_match lc (lc q) d")
  from body_match_nonempty [of lc q d, OF lc q] bm
  have cond: "(opt_includes lc (post_name d) (lc q) \<or> mt \<noteq> []) = discussion_matches lc q d"
    by (auto simp: discussion_matches_def)
  obtain s where s: "getHighlightedSnippet lc mt q 100 = Some s"
    using getHighlightedSnippet_total [of q lc mt 100] q lq by blast
  show ?thesis
  proof (cases "discussion_matches lc q d")
    case True
    with cond s bm show ?thesis
      unfolding search_discussion_def Let_def
      by (cases "mt = []") (simp_all add: result_key_def discussion_title_def)
  next
    case False
    with cond bm show ?thesis
      unfolding search_discussion_def Let_def by simp
  qed
qed

lemma getHighlightedSnippet_absent:
  assumes "\<not> includes_str (lc T) (lc Q)"
  shows "getHighlightedSnippet lc T Q 100 = Some (Text (preview T))"
proof -
  from assms have "indexOf (lc T) (lc Q) 0 = None"
    by (simp add: includes_str_def)
  from getHighlightedSnippet_not_found [of lc T Q 100, OF this] show ?thesis
    by (simp add: preview_def)
qed

lemma search_comments_no_match:
  "\<not> list_ex (comment_matches lc q) cs \<Longrightarrow> search_comments lc (lc q) cs = None"
  by (simp add: search_comments_None)

text \<open>
  Claim C2. For every lower-casing function \<open>toLowerCase\<close> that gives the empty string for
  the empty string only, as the builtin does: when the query is empty after trimming, the
  search effect sets the results to the empty list. Otherwise it returns, and the results
  are the first 10 entries of the list that has one result for every matching UI folder,
  then one for every matching API folder, then one for every matching document, then one
  for every matching discussion, each group in the order of its array.
\<close>

theorem search_effect_order:
  assumes lc: "\<And>s. (toLowerCase s = []) = (s = [])"
  shows
  "(trim q = [] \<longrightarrow> search_effect toLowerCase q ui api docs discs = Some [])
   \<and> (trim q \<noteq> [] \<longrightarrow>
        (\<exists>rs. search_effect toLowerCase q ui api docs discs = Some rs
           \<and> map result_key rs =
               take 10
                 (map (\<lambda>f. (TFolder, Some UI, sf_name f))
                    (filter (folder_matches toLowerCase q) ui)
                  @ map (\<lambda>f. (TFolder, Some API, sf_name f))
                      (filter (folder_matches toLowerCase q) api)
                  @ map (\<lambda>d. (TDocument, None, doc_name d))
                      (filter (document_matches toLowerCase q) docs)
                  @ map (\<lambda>d. (TDiscussion, None, discussion_title d))
                      (filter (discussion_matches toLowerCase q) discs))))"
proof (intro conjI impI)
  assume "trim q = []"
  then show "search_effect toLowerCase q ui api docs discs = Some []"
    by (simp add: search_effect_def)
next
  let ?lc = toLowerCase
  assume t: "trim q \<noteq> []"
  then have q: "q \<noteq> []" by (rule trim_nonempty)
  from forEach_append [of "search_folder ?lc UI q" result_key
      "\<lambda>f. if folder_matches ?lc q f then [(TFolder, Some UI, sf_name f)] else []" ui "[]"]
    search_folder_step [of ?lc q UI, OF lc q]
  obtain r1 where r1: "forEach (search_folder ?lc UI q) ui [] = Some r1"
    "map result_key r1 = map (\<lambda>f. (TFolder, Some UI, sf_name f)) (filter (folder_matches ?lc q) ui)"
    by (auto simp: concat_map_if)
  from forEach_append [of "search_folder ?lc API q" result_key
      "\<lambda>f. if folder_matches ?lc q f then [(TFolder, Some API, sf_name f)] else []" api r1]
    search_folder_step [of ?lc q API, OF lc q]
  obtain r2 where r2: "forEach (search_folder ?lc API q) api r1 = Some (r1 @ r2)"
    "map result_key r2 = map (\<lambda>f. (TFolder, Some API, sf_name f)) (filter (folder_matches ?lc q) api)"
    by (auto simp: concat_map_if)
  from forEach_append [of "search_document ?lc q" result_key
      "\<lambda>d. if document_matches ?lc q d then [(TDocument, None, doc_name d)] else []" docs "r1 @ r2"]
    search_document_step [of ?lc q]
  obtain r3 where r3: "forEach (search_document ?lc q) docs (r1 @ r2) = Some ((r1 @ r2) @ r3)"
    "map result_key r3 = map (\<lambda>d. (TDocument, None, doc_name d)) (filter (document_matches ?lc q) docs)"
    by (auto simp: concat_map_if)
  from forEach_append [of "search_discussion ?lc q" result_key
      "\<lambda>d. if discussion_matches ?lc q d then [(TDiscussion, None, discussion_title d)] else []"
      discs "(r1 @ r2) @ r3"]
    search_discussion_step [of ?lc q, OF lc q]
  obtain r4 where r4:
    "forEach (search_discussion ?lc q) discs ((r1 @ r2) @ r3) = Some (((r1 @ r2) @ r3) @ r4)"
    "map result_key r4 =
       map (\<lambda>d. (TDiscussion, None, discussion_title d)) (filter (discussion_matches ?lc q) discs)"
    by (auto simp: concat_map_if)
  have "search_effect ?lc q ui api docs discs = Some (take 10 (((r1 @ r2) @ r3) @ r4))"
    using t r1(1) r2(1) r3(1) r4(1) by (simp add: search_effect_def)
  moreover have "map result_key (((r1 @ r2) @ r3) @ r4) =
        (map (\<lambda>f. (TFolder, Some UI, sf_name f)) (filter (folder_matches ?lc q) ui)
         @ map (\<lambda>f. (TFolder, Some API, sf_name f)) (filter (folder_matches ?lc q) api)
         @ map (\<lambda>d. (TDocument, None, doc_name d)) (filter (document_matches ?lc q) docs)
         @ map (\<lambda>d. (TDiscussion, None, discussion_title d))
             (filter (discussion_matches ?lc q) discs))"
    (is "_ = ?keys")
    using r1(2) r2(2) r3(2) r4(2) by simp
  then have "take 10 (map result_key (((r1 @ r2) @ r3) @ r4)) = take 10 ?keys"
    by (rule arg_cong)
  then have "map result_key (take 10 (((r1 @ r2) @ r3) @ r4)) = take 10 ?keys"
    by (simp only: take_map)
  ultimately show "\<exists>rs. search_effect ?lc q ui api docs discs = Some rs
           \<and> map result_key rs =
               take 10
                 (map (\<lambda>f. (TFolder, Some UI, sf_name f))
                    (filter (folder_matches ?lc q) ui)
                  @ map (\<lambda>f. (TFolder, Some API, sf_name f))
                      (filter (folder_matches ?lc q) api)
                  @ map (\<lambda>d. (TDocument, None, doc_name d))
                      (filter (document_matches ?lc q) docs)
                  @ map (\<lambda>d. (TDiscussion, None, discussion_title d))
                      (filter (discussion_matches ?lc q) discs))"
    by blast
qed

theorem search_effect_order_witness:
  "(\<forall>s. (lower_latin1 s = []) = (s = []))
   \<and> search_effect lower_latin1 (units ''  '')
      [sample_folder ''Pages'' [] ''Screen models''] [] [] [] = Some []
   \<and> (\<exists>rs. search_effect lower_latin1 (units ''page'')
          [sample_folder ''Pages'' [] ''Screen models'', sample_folder ''Hooks'' ''Setup'' []]
          [sample_folder ''Tests'' ''One test per page'' []]
          (map named_doc [''page1'', ''page2'', ''notes'', ''page3'', ''page4'', ''page5'',
             ''page6'', ''page7'', ''page8'', ''page9''])
          [\<lparr> post_id = units ''p1'', post_name = Some (units ''Pages question''),
              post_message = Some (units ''hello''), comments = Some [] \<rparr>] = Some rs
        \<and> map result_key rs =
            [(TFolder, Some UI, units ''Pages''), (TFolder, Some API, units ''Tests''),
             (TDocument, None, units ''page1''), (TDocument, None, units ''page2''),
             (TDocument, None, units ''page3''), (TDocument, None, units ''page4''),
             (TDocument, None, units ''page5''), (TDocument, None, units ''page6''),
             (TDocument, None, units ''page7''), (TDocument, None, units ''page8'')])"
proof -
  let ?ui = "[sample_folder ''Pages'' [] ''Screen models'', sample_folder ''Hooks'' ''Setup'' []]"
  let ?api = "[sample_folder ''Tests'' ''One test per page'' []]"
  let ?docs = "map named_doc [''page1'', ''page2'', ''notes'', ''page3'', ''page4'', ''page5'',
             ''page6'', ''page7'', ''page8'', ''page9'']"
  let ?discs = "[\<lparr> post_id = units ''p1'', post_name = Some (units ''Pages question''),
              post_message = Some (units ''hello''), comments = Some [] \<rparr>]"
  have t0: "trim (units ''  '') = []" by code_simp
  have t1: "trim (units ''page'') \<noteq> []" by code_simp
  have keys: "take 10
       (map (\<lambda>f. (TFolder, Some UI, sf_name f))
          (filter (folder_matches lower_latin1 (units ''page'')) ?ui)
        @ map (\<lambda>f. (TFolder, Some API, sf_name f))
            (filter (folder_matches lower_latin1 (units ''page'')) ?api)
        @ map (\<lambda>d. (TDocument, None, doc_name d))
            (filter (document_matches lower_latin1 (units ''page'')) ?docs)
        @ map (\<lambda>d. (TDiscussion, None, discussion_title d))
            (filter (discussion_matches lower_latin1 (units ''page'')) ?discs)) =
            [(TFolder, Some UI, units ''Pages''), (TFolder, Some API, units ''Tests''),
             (TDocument, None, units ''page1''), (TDocument, None, units ''page2''),
             (TDocument, None, units ''page3''), (TDocument, None, units ''page4''),
             (TDocument, None, units ''page5''), (TDocument, None, units ''page6''),
             (TDocument, None, units ''page7''), (TDocument, None, units ''page8'')]"
    by code_simp
  have h: "\<forall>s. (lower_latin1 s = []) = (s = [])"
    by (simp add: lower_latin1_Nil_iff)
  from search_effect_order [of lower_latin1 "units ''  ''"
      "[sample_folder ''Pages'' [] ''Screen models'']" "[]" "[]" "[]", OF lower_latin1_Nil_iff] t0
  have a: "search_effect lower_latin1 (units ''  '')
      [sample_folder ''Pages'' [] ''Screen models''] [] [] [] = Some []"
    by blast
  from search_effect_order [of lower_latin1 "units ''page''" ?ui ?api ?docs ?discs,
      OF lower_latin1_Nil_iff] t1
  have b: "\<exists>rs. search_effect lower_latin1 (units ''page'') ?ui ?api ?docs ?discs = Some rs
        \<and> map result_key rs =
            [(TFolder, Some UI, units ''Pages''), (TFolder, Some API, units ''Tests''),
             (TDocument, None, units ''page1''), (TDocument, None, units ''page2''),
             (TDocument, None, units ''page3''), (TDocument, None, units ''page4''),
             (TDocument, None, units ''page5''), (TDocument, None, units ''page6''),
             (TDocument, None, units ''page7''), (TDocument, None, units ''page8'')]"
    unfolding keys by blast
  from h a b show ?thesis by blast
qed

text \<open>
  The search at a name with a letter outside ASCII: the query U+00E9 (small e with an
  acute accent), \<open>cole\<close> matches the document U+00C9 (the capital letter), \<open>cole.pdf\<close>.
\<close>

lemma search_document_accented:
  "search_effect lower_latin1 ([0xE9] @ units ''cole'') [] []
      [\<lparr> doc_name = [0xC9] @ units ''cole.pdf'',
          doc_uploadedAt = units ''2024-01-01T00:00:00.000Z'' \<rparr>] [] =
     Some [\<lparr> result_type = TDocument, title = [0xC9] @ units ''cole.pdf'',
              result_description = Uploaded (units ''2024-01-01T00:00:00.000Z''),
              highlightedSnippet = None, result_repo = None, onClick = Nav_documents \<rparr>]"
  by code_simp

text \<open>
  A folder named \<open>Pages\<close> with a description that does not contain the query: the match
  is title-only, and the result carries a snippet, the preview of the description.
\<close>

theorem title_only_folder_counterexample:
  "folder_title_only lower_latin1 (units ''pages'') (sample_folder ''Pages'' [] ''Screen models'')
   \<and> search_effect lower_latin1 (units ''pages'')
        [sample_folder ''Pages'' [] ''Screen models''] [] [] [] =
       Some [\<lparr> result_type = TFolder, title = units ''Pages'',
                result_description = Literal (units ''UI Test Automation Folder''),
                highlightedSnippet = Some (Text (units ''Screen models'')),
                result_repo = Some UI, onClick = Nav_folder UI (units ''Pages'') \<rparr>]"
  by code_simp

text \<open>
  Claim C3, as amended. For every lower-casing function \<open>toLowerCase\<close> and every entity
  whose match is title-only, the loop body pushes one result for it onto the found list.
  A document's result and a title-only discussion's result have no snippet; the
  discussion's description is its comment count. A title-only folder's result has no
  snippet only when its description and purpose are both empty. Otherwise the snippet is
  present and is the plain preview, without highlighting, of the description, or of the
  purpose when the description is empty; the description of the result is the purpose when
  that is not empty, and the generic descriptor otherwise.
\<close>

theorem title_only_match:
  "(folder_title_only toLowerCase q f \<longrightarrow>
      search_folder toLowerCase r q f acc =
        Some (acc @ [\<lparr> result_type = TFolder,
                        title = sf_name f,
                        result_description =
                          Literal (js_or (sf_purpose f) (default_description r)),
                        highlightedSnippet =
                          (if sf_description f = [] \<and> sf_purpose f = [] then None
                           else Some (Text (preview (js_or (sf_description f) (sf_purpose f))))),
                        result_repo = Some r,
                        onClick = Nav_folder r (sf_name f) \<rparr>]))
   \<and> (document_matches toLowerCase q d \<longrightarrow>
      search_document toLowerCase q d acc =
        Some (acc @ [\<lparr> result_type = TDocument,
                        title = doc_name d,
                        result_description = Uploaded (doc_uploadedAt d),
                        highlightedSnippet = None,
                        result_repo = None,
                        onClick = Nav_documents \<rparr>]))
   \<and> (discussion_title_only toLowerCase q p \<longrightarrow>
      search_discussion toLowerCase q p acc =
        Some (acc @ [\<lparr> result_type = TDiscussion,
                        title = discussion_title p,
                        result_description = Comment_count (comment_count p),
                        highlightedSnippet = None,
                        result_repo = None,
                        onClick = Nav_post (post_id p) \<rparr>]))"
proof (intro conjI impI)
  let ?lc = toLowerCase
  assume h: "folder_title_only ?lc q f"
  then have nm: "includes_str (?lc (sf_name f)) (?lc q)"
    and np: "\<not> includes_str (?lc (sf_purpose f)) (?lc q)"
    and nd: "\<not> includes_str (?lc (sf_description f)) (?lc q)"
    by (simp_all add: folder_title_only_def)
  let ?mt = "js_or (sf_description f) (js_or (sf_purpose f) [])"
  have mt: "?mt = js_or (sf_description f) (sf_purpose f)"
    by (simp add: js_or_def)
  have "\<not> includes_str (?lc ?mt) (?lc q)"
    using np nd by (cases "sf_description f = []"; cases "sf_purpose f = []") (simp_all add: js_or_def)
  from getHighlightedSnippet_absent [of ?lc ?mt q, OF this]
  have g: "getHighlightedSnippet ?lc ?mt q 100 =
      Some (Text (preview (js_or (sf_description f) (sf_purpose f))))"
    by (simp only: mt)
  have e: "(?mt = []) = (sf_description f = [] \<and> sf_purpose f = [])"
    by (auto simp: js_or_def)
  show "search_folder ?lc r q f acc =
        Some (acc @ [\<lparr> result_type = TFolder,
                        title = sf_name f,
                        result_description =
                          Literal (js_or (sf_purpose f) (default_description r)),
                        highlightedSnippet =
                          (if sf_description f = [] \<and> sf_purpose f = [] then None
                           else Some (Text (preview (js_or (sf_description f) (sf_purpose f))))),
                        result_repo = Some r,
                        onClick = Nav_folder r (sf_name f) \<rparr>])"
    unfolding search_folder_def Let_def using nm g e by simp
next
  assume "document_matches toLowerCase q d"
  then show "search_document toLowerCase q d acc =
        Some (acc @ [\<lparr> result_type = TDocument,
                        title = doc_name d,
                        result_description = Uploaded (doc_uploadedAt d),
                        highlightedSnippet = None,
                        result_repo = None,
                        onClick = Nav_documents \<rparr>])"
    by (simp add: search_document_def document_matches_def)
next
  let ?lc = toLowerCase
  assume h: "discussion_title_only ?lc q p"
  then have nm: "opt_includes ?lc (post_name p) (?lc q)"
    and np: "matching ?lc (post_message p) (?lc q) = None"
    and nc: "\<not> (case comments p of None \<Rightarrow> False | Some cs \<Rightarrow> list_ex (comment_matches ?lc q) cs)"
    by (simp_all add: discussion_title_only_def opt_includes_def)
  have bm: "body_match ?lc (?lc q) p = ([], Literal [])"
    using np nc search_comments_no_match [of ?lc q]
    by (auto simp: body_match_def post_match_def split: option.splits)
  show "search_discussion ?lc q p acc =
        Some (acc @ [\<lparr> result_type = TDiscussion,
                        title = discussion_title p,
                        result_description = Comment_count (comment_count p),
                        highlightedSnippet = None,
                        result_repo = None,
                        onClick = Nav_post (post_id p) \<rparr>])"
    unfolding search_discussion_def Let_def using nm bm
    by (simp add: discussion_title_def)
qed

theorem title_only_match_witness:
  "search_folder lower_latin1 UI (units ''pages'') (sample_folder ''Pages'' [] ''Screen models'') [] =
     Some [\<lparr> result_type = TFolder, title = units ''Pages'',
              result_description = Literal (units ''UI Test Automation Folder''),
              highlightedSnippet = Some (Text (units ''Screen models'')),
              result_repo = Some UI, onClick = Nav_folder UI (units ''Pages'') \<rparr>]
   \<and> search_folder lower_latin1 API (units ''pages'') (sample_folder ''Pages'' [] []) [] =
     Some [\<lparr> result_type = TFolder, title = units ''Pages'',
              result_description = Literal (units ''API Test Automation Folder''),
              highlightedSnippet = None,
              result_repo = Some API, onClick = Nav_folder API (units ''Pages'') \<rparr>]
   \<and> search_document lower_latin1 (units ''pages'') (named_doc ''Pages.pdf'') [] =
     Some [\<lparr> result_type = TDocument, title = units ''Pages.pdf'',
              result_description = Uploaded (units ''2024-01-01T00:00:00.000Z''),
              highlightedSnippet = None, result_repo = None, onClick = Nav_documents \<rparr>]
   \<and> search_discussion lower_latin1 (units ''pages'') sample_discussion [] =
     Some [\<lparr> result_type = TDiscussion, title = units ''Pages question'',
              result_description = Comment_count 1,
              highlightedSnippet = None, result_repo = None,
              onClick = Nav_post (units ''p1'') \<rparr>]"
proof -
  let ?lc = lower_latin1
  let ?q = "units ''pages''"
  let ?f1 = "sample_folder ''Pages'' [] ''Screen models''"
  let ?f2 = "sample_folder ''Pages'' [] []"
  let ?d = "named_doc ''Pages.pdf''"
  let ?p = sample_discussion
  have h1: "folder_title_only ?lc ?q ?f1" by code_simp
  have h2: "folder_title_only ?lc ?q ?f2" by code_simp
  have h3: "document_matches ?lc ?q ?d" by code_simp
  have h4: "discussion_title_only ?lc ?q ?p" by code_simp
  have v1: "[] @ [\<lparr> result_type = TFolder, title = sf_name ?f1,
        result_description = Literal (js_or (sf_purpose ?f1) (default_description UI)),
        highlightedSnippet =
          (if sf_description ?f1 = [] \<and> sf_purpose ?f1 = [] then None
           else Some (Text (preview (js_or (sf_description ?f1) (sf_purpose ?f1))))),
        result_repo = Some UI, onClick = Nav_folder UI (sf_name ?f1) \<rparr>] =
     [\<lparr> result_type = TFolder, title = units ''Pages'',
              result_description = Literal (units ''UI Test Automation Folder''),
              highlightedSnippet = Some (Text (units ''Screen models'')),
              result_repo = Some UI, onClick = Nav_folder UI (units ''Pages'') \<rparr>]"
    by code_simp
  have v2: "[] @ [\<lparr> result_type = TFolder, title = sf_name ?f2,
        result_description = Literal (js_or (sf_purpose ?f2) (default_description API)),
        highlightedSnippet =
          (if sf_description ?f2 = [] \<and> sf_purpose ?f2 = [] then None
           else Some (Text (preview (js_or (sf_description ?f2) (sf_purpose ?f2))))),
        result_repo = Some API, onClick = Nav_folder API (sf_name ?f2) \<rparr>] =
     [\<lparr> result_type = TFolder, title = units ''Pages'',
              result_description = Literal (units ''API Test Automation Folder''),
              highlightedSnippet = None,
              result_repo = Some API, onClick = Nav_folder API (units ''Pages'') \<rparr>]"
    by code_simp
  have v3: "[] @ [\<lparr> result_type = TDocument, title = doc_name ?d,
        result_description = Uploaded (doc_uploadedAt ?d),
        highlightedSnippet = None, result_repo = None, onClick = Nav_documents \<rparr>] =
     [\<lparr> result_type = TDocument, title = units ''Pages.pdf'',
              result_description = Uploaded (units ''2024-01-01T00:00:00.000Z''),
              highlightedSnippet = None, result_repo = None, onClick = Nav_documents \<rparr>]"
    by code_simp
  have v4: "[] @ [\<lparr> result_type = TDiscussion, title = discussion_title ?p,
        result_description = Comment_count (comment_count ?p),
        highlightedSnippet = None, result_repo = None, onClick = Nav_post (post_id ?p) \<rparr>] =
     [\<lparr> result_type = TDiscussion, title = units ''Pages question'',
              result_description = Comment_count 1,
              highlightedSnippet = None, result_repo = None,
              onClick = Nav_post (units ''p1'') \<rparr>]"
    by code_simp
  from title_only_match [of ?lc ?q ?f1 UI "[]" ?d ?p] h1 h3 h4
  have a: "search_folder ?lc UI ?q ?f1 [] = Some ([] @ [\<lparr> result_type = TFolder, title = sf_name ?f1,
        result_description = Literal (js_or (sf_purpose ?f1) (default_description UI)),
        highlightedSnippet =
          (if sf_description ?f1 = [] \<and> sf_purpose ?f1 = [] then None
           else Some (Text (preview (js_or (sf_description ?f1) (sf_purpose ?f1))))),
        result_repo = Some UI, onClick = Nav_folder UI (sf_name ?f1) \<rparr>])"
    and c: "search_document ?lc ?q ?d [] = Some ([] @ [\<lparr> result_type = TDocument, title = doc_name ?d,
        result_description = Uploaded (doc_uploadedAt ?d),
        highlightedSnippet = None, result_repo = None, onClick = Nav_documents \<rparr>])"
    and d: "search_discussion ?lc ?q ?p [] = Some ([] @ [\<lparr> result_type = TDiscussion,
        title = discussion_title ?p,
        result_description = Comment_count (comment_count ?p),
        highlightedSnippet = None, result_repo = None, onClick = Nav_post (post_id ?p) \<rparr>])"
    by blast+
  from title_only_match [of ?lc ?q ?f2 API "[]" ?d ?p] h2
  have b: "search_folder ?lc API ?q ?f2 [] = Some ([] @ [\<lparr> result_type = TFolder, title = sf_name ?f2,
        result_description = Literal (js_or (sf_purpose ?f2) (default_description API)),
        highlightedSnippet =
          (if sf_description ?f2 = [] \<and> sf_purpose ?f2 = [] then None
           else Some (Text (preview (js_or (sf_description ?f2) (sf_purpose ?f2))))),
        result_repo = Some API, onClick = Nav_folder API (sf_name ?f2) \<rparr>])"
    by blast
  from a b c d show ?thesis
    unfolding v1 v2 v3 v4 by blast
qed

section \<open>Properties of the REST layer\<close>

lemma js_or_else_collection:
  "holds_collection st key xs \<Longrightarrow> js_or_else (kv_data st key) (JArr []) = JArr xs"
  by (auto simp: holds_collection_def js_or_else_def)

lemma kv_get_collection:
  "holds_collection st key xs \<Longrightarrow> kv_get st key = Inr (kv_data st key)"
  by (simp add: holds_collection_def kv_get_def)

lemma get_prop_id:
  assumes "is_obj x"
  shows "\<exists>v. get_prop x ''id'' = Inr v \<and> (v = Some (JStr d)) = has_id d x"
  using assms by (cases x) (simp_all add: is_obj_def get_prop_def has_id_def)

lemma filter_id_ne_absent:
  assumes "list_all is_obj xs" and "\<not> list_ex (has_id d) xs"
  shows "filter_id_ne d xs = Inr xs"
  using assms
proof (induction xs)
  case Nil
  show ?case by simp
next
  case (Cons x xs)
  from Cons.prems have "is_obj x" "\<not> has_id d x" by simp_all
  with get_prop_id [of x d] obtain v where "get_prop x ''id'' = Inr v" "v \<noteq> Some (JStr d)"
    by auto
  moreover from Cons have "filter_id_ne d xs = Inr xs" by simp
  ultimately show ?case by simp
qed

lemma findIndex_id_absent:
  assumes "list_all is_obj xs" and "\<not> list_ex (has_id d) xs"
  shows "findIndex_id d xs = Inr None"
  using assms
proof (induction xs)
  case Nil
  show ?case by simp
next
  case (Cons x xs)
  from Cons.prems have "is_obj x" "\<not> has_id d x" by simp_all
  with get_prop_id [of x d] obtain v where "get_prop x ''id'' = Inr v" "v \<noteq> Some (JStr d)"
    by auto
  moreover from Cons have "findIndex_id d xs = Inr None" by simp
  ultimately show ?case by simp
qed

lemma findIndex_id_first:
  assumes "list_all is_obj xs" and "i < length xs" and "has_id d (xs ! i)"
    and "\<forall>j<i. \<not> has_id d (xs ! j)"
  shows "findIndex_id d xs = Inr (Some i)"
  using assms
proof (induction xs arbitrary: i)
  case Nil
  then show ?case by simp
next
  case (Cons x xs)
  from Cons.prems(1) have ox: "is_obj x" by simp
  from get_prop_id [OF ox, of d] obtain v where
    v: "get_prop x ''id'' = Inr v" "(v = Some (JStr d)) = has_id d x" by blast
  show ?case
  proof (cases i)
    case 0
    with Cons.prems(3) v show ?thesis by simp
  next
    case (Suc k)
    with Cons.prems(4) have nx: "\<not> has_id d x" by auto
    have "findIndex_id d xs = Inr (Some k)"
    proof (rule Cons.IH)
      show "list_all is_obj xs" using Cons.prems(1) by simp
      show "k < length xs" using Cons.prems(2) Suc by simp
      show "has_id d (xs ! k)" using Cons.prems(3) Suc by simp
      show "\<forall>j<k. \<not> has_id d (xs ! j)"
      proof (intro allI impI)
        fix j assume "j < k"
        then have "Suc j < i" using Suc by simp
        with Cons.prems(4) have "\<not> has_id d ((x # xs) ! Suc j)" by blast
        then show "\<not> has_id d (xs ! j)" by simp
      qed
    qed
    with v nx Suc show ?thesis by simp
  qed
qed

lemma js_or_else_empty:
  "x = None \<or> x = Some JNull \<Longrightarrow> js_or_else x (JArr []) = JArr []"
  by (auto simp: js_or_else_def)

text \<open>
  Claim C10. When the store is up and holds no value, or \<open>null\<close>, under the key of a
  collection, the \<open>GET\<close> endpoint of that collection (documents, UI structure, API
  structure, community posts) answers with status 200 and the empty array under its
  response key, and leaves the store as it is.
\<close>

theorem get_collection_empty:
  "kv_up st \<longrightarrow>
     ((kv_data st ''wis-documents'' = None \<or> kv_data st ''wis-documents'' = Some JNull) \<longrightarrow>
        get_documents st =
          (\<lparr> resp_status = 200, resp_body = [''documents'' \<mapsto> JArr []] \<rparr>, st))
   \<and> ((kv_data st ''wis-ui-structure'' = None \<or> kv_data st ''wis-ui-structure'' = Some JNull) \<longrightarrow>
        get_structure_ui st =
          (\<lparr> resp_status = 200, resp_body = [''structure'' \<mapsto> JArr []] \<rparr>, st))
   \<and> ((kv_data st ''wis-api-structure'' = None \<or> kv_data st ''wis-api-structure'' = Some JNull) \<longrightarrow>
        get_structure_api st =
          (\<lparr> resp_status = 200, resp_body = [''structure'' \<mapsto> JArr []] \<rparr>, st))
   \<and> ((kv_data st ''wis-community-posts'' = None
        \<or> kv_data st ''wis-community-posts'' = Some JNull) \<longrightarrow>
        get_posts st =
          (\<lparr> resp_status = 200, resp_body = [''posts'' \<mapsto> JArr []] \<rparr>, st))"
proof (intro impI conjI)
  assume up: "kv_up st"
  {
    assume "kv_data st ''wis-documents'' = None \<or> kv_data st ''wis-documents'' = Some JNull"
    from js_or_else_empty [OF this] up
    show "get_documents st =
          (\<lparr> resp_status = 200, resp_body = [''documents'' \<mapsto> JArr []] \<rparr>, st)"
      by (simp add: get_documents_def kv_get_def catch_500_def)
  next
    assume "kv_data st ''wis-ui-structure'' = None \<or> kv_data st ''wis-ui-structure'' = Some JNull"
    from js_or_else_empty [OF this] up
    show "get_structure_ui st =
          (\<lparr> resp_status = 200, resp_body = [''structure'' \<mapsto> JArr []] \<rparr>, st)"
      by (simp add: get_structure_ui_def kv_get_def catch_500_def)
  next
    assume "kv_data st ''wis-api-structure'' = None \<or> kv_data st ''wis-api-structure'' = Some JNull"
    from js_or_else_empty [OF this] up
    show "get_structure_api st =
          (\<lparr> resp_status = 200, resp_body = [''structure'' \<mapsto> JArr []] \<rparr>, st)"
      by (simp add: get_structure_api_def kv_get_def catch_500_def)
  next
    assume "kv_data st ''wis-community-posts'' = None
        \<or> kv_data st ''wis-community-posts'' = Some JNull"
    from js_or_else_empty [OF this] up
    show "get_posts st =
          (\<lparr> resp_status = 200, resp_body = [''posts'' \<mapsto> JArr []] \<rparr>, st)"
      by (simp add: get_posts_def kv_get_def catch_500_def)
  }
qed

theorem get_collection_empty_witness:
  "get_documents empty_store =
      (\<lparr> resp_status = 200, resp_body = [''documents'' \<mapsto> JArr []] \<rparr>, empty_store)
   \<and> get_structure_ui empty_store =
      (\<lparr> resp_status = 200, resp_body = [''structure'' \<mapsto> JArr []] \<rparr>, empty_store)
   \<and> get_structure_api empty_store =
      (\<lparr> resp_status = 200, resp_body = [''structure'' \<mapsto> JArr []] \<rparr>, empty_store)
   \<and> get_posts (empty_store\<lparr> kv_data := [''wis-community-posts'' \<mapsto> JNull] \<rparr>) =
      (\<lparr> resp_status = 200, resp_body = [''posts'' \<mapsto> JArr []] \<rparr>,
       empty_store\<lparr> kv_data := [''wis-community-posts'' \<mapsto> JNull] \<rparr>)"
proof -
  have up: "kv_up empty_store" "kv_up (empty_store\<lparr> kv_data := [''wis-community-posts'' \<mapsto> JNull] \<rparr>)"
    by (simp_all add: empty_store_def)
  have e: "kv_data empty_store ''wis-documents'' = None"
    "kv_data empty_store ''wis-ui-structure'' = None"
    "kv_data empty_store ''wis-api-structure'' = None"
    by (simp_all add: empty_store_def)
  have n: "kv_data (empty_store\<lparr> kv_data := [''wis-community-posts'' \<mapsto> JNull] \<rparr>)
      ''wis-community-posts'' = Some JNull"
    by simp
  from get_collection_empty [of empty_store] up(1) e
  have a: "get_documents empty_store =
      (\<lparr> resp_status = 200, resp_body = [''documents'' \<mapsto> JArr []] \<rparr>, empty_store)"
    and b: "get_structure_ui empty_store =
      (\<lparr> resp_status = 200, resp_body = [''structure'' \<mapsto> JArr []] \<rparr>, empty_store)"
    and c: "get_structure_api empty_store =
      (\<lparr> resp_status = 200, resp_body = [''structure'' \<mapsto> JArr []] \<rparr>, empty_store)"
    by blast+
  from get_collection_empty [of "empty_store\<lparr> kv_data := [''wis-community-posts'' \<mapsto> JNull] \<rparr>"]
    up(2) n
  have d: "get_posts (empty_store\<lparr> kv_data := [''wis-community-posts'' \<mapsto> JNull] \<rparr>) =
      (\<lparr> resp_status = 200, resp_body = [''posts'' \<mapsto> JArr []] \<rparr>,
       empty_store\<lparr> kv_data := [''wis-community-posts'' \<mapsto> JNull] \<rparr>)"
    by blast
  from a b c d show ?thesis by blast
qed

text \<open>
  Claim C7. On a stored collection of records none of which has the id \<open>d\<close>,
  \<open>DELETE /documents/d\<close> answers 404, and so does \<open>POST /community/posts/d/comments\<close> with
  a valid body (truthy \<open>name\<close> and \<open>message\<close>); in both cases the store after the request
  is the store before it, with no write recorded.
\<close>

theorem unknown_id_not_found:
  "(holds_collection st ''wis-documents'' docs \<and> list_all is_obj docs
      \<and> \<not> list_ex (has_id d) docs \<longrightarrow>
     delete_document d st =
       (\<lparr> resp_status = 404, resp_body = [''error'' \<mapsto> JStr ''Document not found''] \<rparr>, st))
   \<and> (holds_collection st ''wis-community-posts'' posts \<and> list_all is_obj posts
      \<and> \<not> list_ex (has_id d) posts
      \<and> \<not> js_not (req ''name'') \<and> \<not> js_not (req ''message'') \<longrightarrow>
     post_comment uuid now d req st =
       (\<lparr> resp_status = 404, resp_body = [''error'' \<mapsto> JStr ''Post not found''] \<rparr>, st))"
proof (intro conjI impI)
  assume h: "holds_collection st ''wis-documents'' docs \<and> list_all is_obj docs
      \<and> \<not> list_ex (has_id d) docs"
  then have "filter_id_ne d docs = Inr docs" by (simp add: filter_id_ne_absent)
  moreover from h have hc: "holds_collection st ''wis-documents'' docs" by simp
  note kv_get_collection [OF hc] js_or_else_collection [OF hc]
  ultimately show "delete_document d st =
       (\<lparr> resp_status = 404, resp_body = [''error'' \<mapsto> JStr ''Document not found''] \<rparr>, st)"
    by (simp add: delete_document_def as_array_def catch_500_def)
next
  assume h: "holds_collection st ''wis-community-posts'' posts \<and> list_all is_obj posts
      \<and> \<not> list_ex (has_id d) posts
      \<and> \<not> js_not (req ''name'') \<and> \<not> js_not (req ''message'')"
  then have "findIndex_id d posts = Inr None" by (simp add: findIndex_id_absent)
  moreover from h have hc: "holds_collection st ''wis-community-posts'' posts" by simp
  note kv_get_collection [OF hc] js_or_else_collection [OF hc]
  moreover from h have "\<not> js_not (req ''name'')" "\<not> js_not (req ''message'')" by simp_all
  ultimately show "post_comment uuid now d req st =
       (\<lparr> resp_status = 404, resp_body = [''error'' \<mapsto> JStr ''Post not found''] \<rparr>, st)"
    by (simp add: post_comment_def as_array_def catch_500_def)
qed

theorem unknown_id_not_found_witness:
  "delete_document ''d9'' sample_store =
       (\<lparr> resp_status = 404, resp_body = [''error'' \<mapsto> JStr ''Document not found''] \<rparr>,
        sample_store)
   \<and> post_comment ''u1'' ''2024-02-02T00:00:00.000Z'' ''p9''
        [''name'' \<mapsto> JStr ''Bob'', ''message'' \<mapsto> JStr ''hi''] sample_store =
       (\<lparr> resp_status = 404, resp_body = [''error'' \<mapsto> JStr ''Post not found''] \<rparr>,
        sample_store)"
proof -
  let ?docs = "[sample_doc ''d1'' ''a.txt'', sample_doc ''d2'' ''b.txt'']"
  let ?posts = "[sample_post ''p1'']"
  let ?req = "[''name'' \<mapsto> JStr ''Bob'', ''message'' \<mapsto> JStr ''hi'']"
  have h1: "holds_collection sample_store ''wis-documents'' ?docs \<and> list_all is_obj ?docs
      \<and> \<not> list_ex (has_id ''d9'') ?docs"
    by (simp add: holds_collection_def sample_store_def sample_doc_def is_obj_def has_id_def)
  have h2: "holds_collection sample_store ''wis-community-posts'' ?posts \<and> list_all is_obj ?posts
      \<and> \<not> list_ex (has_id ''p9'') ?posts
      \<and> \<not> js_not (?req ''name'') \<and> \<not> js_not (?req ''message'')"
    by (simp add: holds_collection_def sample_store_def sample_post_def is_obj_def has_id_def
        js_not_def)
  from unknown_id_not_found [of sample_store ?docs "''d9''" ?posts ?req] h1
  have a: "delete_document ''d9'' sample_store =
       (\<lparr> resp_status = 404, resp_body = [''error'' \<mapsto> JStr ''Document not found''] \<rparr>,
        sample_store)"
    by blast
  from unknown_id_not_found [of sample_store "[]" "''p9''" ?posts ?req "''u1''"
      "''2024-02-02T00:00:00.000Z''"] h2
  have b: "post_comment ''u1'' ''2024-02-02T00:00:00.000Z'' ''p9'' ?req sample_store =
       (\<lparr> resp_status = 404, resp_body = [''error'' \<mapsto> JStr ''Post not found''] \<rparr>,
        sample_store)"
    by blast
  from a b show ?thesis by blast
qed

text \<open>
  Claim C6. Let the stored documents be a collection of records in which the record at
  index \<open>i\<close>, with fields \<open>m\<close>, is the first with id \<open>d\<close>. Then \<open>PUT /documents/d\<close> with
  body \<open>p\<close> answers 200 with the merged record and stores the collection with that record
  at index \<open>i\<close>, which a following \<open>GET /documents\<close> lists. The merged record has id \<open>d\<close>
  whatever \<open>p\<close> says; each other field is the one of \<open>p\<close> when \<open>p\<close> has it and the one of
  \<open>m\<close> otherwise; the collection keeps its length and every other record its place.
\<close>

theorem put_document_merge:
  assumes "holds_collection st ''wis-documents'' docs"
    and "list_all is_obj docs"
    and "i < length docs"
    and "docs ! i = JObj m"
    and "m ''id'' = Some (JStr d)"
    and "\<forall>j<i. \<not> has_id d (docs ! j)"
  shows "(\<exists>st'. put_document d p st =
            (\<lparr> resp_status = 200,
                resp_body = [''document'' \<mapsto> JObj (merged_document m p d),
                             ''message'' \<mapsto> JStr ''Document updated successfully''] \<rparr>, st')
          \<and> kv_up st'
          \<and> kv_data st' = (kv_data st)(''wis-documents'' \<mapsto> JArr (docs[i := JObj (merged_document m p d)]))
          \<and> get_documents st' =
              (\<lparr> resp_status = 200,
                  resp_body = [''documents'' \<mapsto> JArr (docs[i := JObj (merged_document m p d)])] \<rparr>,
               st'))
    \<and> merged_document m p d ''id'' = Some (JStr d)
    \<and> (\<forall>k. k \<noteq> ''id'' \<longrightarrow>
           merged_document m p d k = (case p k of None \<Rightarrow> m k | Some v \<Rightarrow> Some v))
    \<and> length (docs[i := JObj (merged_document m p d)]) = length docs
    \<and> (\<forall>j. j \<noteq> i \<longrightarrow> docs[i := JObj (merged_document m p d)] ! j = docs ! j)"
proof -
  from assms(4,5) have hid: "has_id d (docs ! i)" by (simp add: has_id_def)
  from findIndex_id_first [OF assms(2,3) hid assms(6)]
  have fi: "findIndex_id d docs = Inr (Some i)" .
  note g = kv_get_collection [OF assms(1)] js_or_else_collection [OF assms(1)]
  from assms(1) have up: "kv_up st" by (simp add: holds_collection_def)
  let ?st' = "st\<lparr> kv_data := (kv_data st)(''wis-documents'' \<mapsto> JArr (docs[i := JObj (merged_document m p d)])),
                  kv_writes := kv_writes st @ [(''wis-documents'', JArr (docs[i := JObj (merged_document m p d)]))] \<rparr>"
  have put: "put_document d p st =
            (\<lparr> resp_status = 200,
                resp_body = [''document'' \<mapsto> JObj (merged_document m p d),
                             ''message'' \<mapsto> JStr ''Document updated successfully''] \<rparr>, ?st')"
    using fi g up assms(4)
    by (simp add: put_document_def as_array_def catch_500_def kv_set_def spread_def
        merged_document_def Let_def)
  have get: "get_documents ?st' =
              (\<lparr> resp_status = 200,
                  resp_body = [''documents'' \<mapsto> JArr (docs[i := JObj (merged_document m p d)])] \<rparr>,
               ?st')"
    using up by (simp add: get_documents_def kv_get_def catch_500_def js_or_else_def)
  from put get up
  have main: "\<exists>st'. put_document d p st =
            (\<lparr> resp_status = 200,
                resp_body = [''document'' \<mapsto> JObj (merged_document m p d),
                             ''message'' \<mapsto> JStr ''Document updated successfully''] \<rparr>, st')
          \<and> kv_up st'
          \<and> kv_data st' = (kv_data st)(''wis-documents'' \<mapsto> JArr (docs[i := JObj (merged_document m p d)]))
          \<and> get_documents st' =
              (\<lparr> resp_status = 200,
                  resp_body = [''documents'' \<mapsto> JArr (docs[i := JObj (merged_document m p d)])] \<rparr>,
               st')"
    by (intro exI [of _ ?st']) simp
  have f1: "merged_document m p d ''id'' = Some (JStr d)"
    by (simp add: merged_document_def)
  have f2: "\<forall>k. k \<noteq> ''id'' \<longrightarrow>
           merged_document m p d k = (case p k of None \<Rightarrow> m k | Some v \<Rightarrow> Some v)"
    by (simp add: merged_document_def map_add_def)
  have f3: "length (docs[i := JObj (merged_document m p d)]) = length docs"
    by simp
  have f4: "\<forall>j. j \<noteq> i \<longrightarrow> docs[i := JObj (merged_document m p d)] ! j = docs ! j"
    by simp
  from main f1 f2 f3 f4 show ?thesis by (intro conjI)
qed

theorem put_document_merge_witness:
  "\<exists>st'. put_document ''d2'' [''isFavorite'' \<mapsto> JBool True, ''id'' \<mapsto> JStr ''zzz''] sample_store =
      (\<lparr> resp_status = 200,
          resp_body = [''document'' \<mapsto>
                         JObj [''id'' \<mapsto> JStr ''d2'', ''name'' \<mapsto> JStr ''b.txt'',
                               ''size'' \<mapsto> JStr ''1 KB'', ''type'' \<mapsto> JStr ''text/plain'',
                               ''dataUrl'' \<mapsto> JStr ''data:,'',
                               ''uploadedAt'' \<mapsto> JStr ''2024-01-01T00:00:00.000Z'',
                               ''category'' \<mapsto> JStr ''Uncategorized'',
                               ''isFavorite'' \<mapsto> JBool True],
                       ''message'' \<mapsto> JStr ''Document updated successfully''] \<rparr>, st')
    \<and> get_documents st' =
      (\<lparr> resp_status = 200,
          resp_body = [''documents'' \<mapsto>
                         JArr [sample_doc ''d1'' ''a.txt'',
                               JObj [''id'' \<mapsto> JStr ''d2'', ''name'' \<mapsto> JStr ''b.txt'',
                                     ''size'' \<mapsto> JStr ''1 KB'', ''type'' \<mapsto> JStr ''text/plain'',
                                     ''dataUrl'' \<mapsto> JStr ''data:,'',
                                     ''uploadedAt'' \<mapsto> JStr ''2024-01-01T00:00:00.000Z'',
                                     ''category'' \<mapsto> JStr ''Uncategorized'',
                                     ''isFavorite'' \<mapsto> JBool True]]] \<rparr>, st')"
proof -
  let ?docs = "[sample_doc ''d1'' ''a.txt'', sample_doc ''d2'' ''b.txt'']"
  let ?m = "[''id'' \<mapsto> JStr ''d2'', ''name'' \<mapsto> JStr ''b.txt'', ''size'' \<mapsto> JStr ''1 KB'',
           ''type'' \<mapsto> JStr ''text/plain'', ''dataUrl'' \<mapsto> JStr ''data:,'',
           ''uploadedAt'' \<mapsto> JStr ''2024-01-01T00:00:00.000Z'',
           ''category'' \<mapsto> JStr ''Uncategorized'', ''isFavorite'' \<mapsto> JBool False]"
  let ?p = "[''isFavorite'' \<mapsto> JBool True, ''id'' \<mapsto> JStr ''zzz'']"
  have h1: "holds_collection sample_store ''wis-documents'' ?docs"
    by (simp add: holds_collection_def sample_store_def)
  have h2: "list_all is_obj ?docs" by (simp add: is_obj_def sample_doc_def)
  have h3: "1 < length ?docs" by simp
  have h4: "?docs ! 1 = JObj ?m" by (simp add: sample_doc_def)
  have h5: "?m ''id'' = Some (JStr ''d2'')" by simp
  have h6: "\<forall>j<1. \<not> has_id ''d2'' (?docs ! j)" by (simp add: has_id_def sample_doc_def)
  have mg: "merged_document ?m ?p ''d2'' =
      [''id'' \<mapsto> JStr ''d2'', ''name'' \<mapsto> JStr ''b.txt'', ''size'' \<mapsto> JStr ''1 KB'',
       ''type'' \<mapsto> JStr ''text/plain'', ''dataUrl'' \<mapsto> JStr ''data:,'',
       ''uploadedAt'' \<mapsto> JStr ''2024-01-01T00:00:00.000Z'',
       ''category'' \<mapsto> JStr ''Uncategorized'', ''isFavorite'' \<mapsto> JBool True]"
    by (rule ext) (simp add: merged_document_def map_add_def)
  from put_document_merge [OF h1 h2 h3 h4 h5 h6, of ?p]
  show ?thesis unfolding mg by auto
qed

lemma post_documents_rejected:
  "js_not (req ''name'') \<or> js_not (req ''dataUrl'') \<Longrightarrow>
     post_documents uuid now req st =
       (\<lparr> resp_status = 400,
           resp_body = [''error'' \<mapsto> JStr ''Missing required fields: name and dataUrl''] \<rparr>, st)"
  by (auto simp: post_documents_def catch_500_def)

lemma post_documents_accepted_status:
  assumes "\<not> js_not (req ''name'')" and "\<not> js_not (req ''dataUrl'')"
  shows "resp_status (fst (post_documents uuid now req st)) = 200
       \<or> resp_status (fst (post_documents uuid now req st)) = 500"
  using assms
  by (auto simp: post_documents_def catch_500_def Let_def split: sum.splits)

lemma post_documents_request_object:
  "post_documents_request uuid now (Inr (JObj req)) st = post_documents uuid now req st"
  by (simp add: post_documents_request_def destructure_def)

lemma post_documents_request_no_fields:
  assumes "body \<noteq> JNull" and "\<not> is_obj body"
  shows "post_documents_request uuid now (Inr body) st =
       (\<lparr> resp_status = 400,
           resp_body = [''error'' \<mapsto> JStr ''Missing required fields: name and dataUrl''] \<rparr>, st)"
proof -
  from assms have "destructure body = Inr Map.empty"
    by (cases body) (simp_all add: destructure_def is_obj_def)
  then show ?thesis
    using post_documents_rejected [of Map.empty uuid now st]
    by (simp add: post_documents_request_def js_not_def)
qed

text \<open>
  What the handler throws before its guard: a body that is not JSON text, and the body
  \<open>null\<close>, are answered with status 500, and the store is as before.
\<close>

lemma post_documents_request_throws:
  "resp_status (fst (post_documents_request uuid now (Inl msg) st)) = 500
   \<and> snd (post_documents_request uuid now (Inl msg) st) = st
   \<and> resp_status (fst (post_documents_request uuid now (Inr JNull) st)) = 500
   \<and> snd (post_documents_request uuid now (Inr JNull) st) = st"
  by (simp add: post_documents_request_def destructure_def catch_500_def)

text \<open>
  Claim C5, as amended. For a body that parses to an object, \<open>POST /documents\<close> answers
  400 exactly when \<open>name\<close> or \<open>dataUrl\<close> is absent from the body or falsy (\<open>null\<close>,
  \<open>false\<close>, \<open>0\<close>, the empty string), whatever the body says about \<open>size\<close> and
  \<open>type\<close>; and then the store is as before, with no write. A body that parses to a
  number, a string, a boolean or an array has none of the fields, and gets the same
  answer.
\<close>

theorem post_documents_validation:
  "((resp_status (fst (post_documents_request uuid now (Inr (JObj req)) st)) = 400)
      = (js_not (req ''name'') \<or> js_not (req ''dataUrl'')))
   \<and> (js_not (req ''name'') \<or> js_not (req ''dataUrl'') \<longrightarrow>
        snd (post_documents_request uuid now (Inr (JObj req)) st) = st)
   \<and> (body \<noteq> JNull \<and> \<not> is_obj body \<longrightarrow>
        resp_status (fst (post_documents_request uuid now (Inr body) st)) = 400
        \<and> snd (post_documents_request uuid now (Inr body) st) = st)"
proof (intro conjI impI)
  show "(resp_status (fst (post_documents_request uuid now (Inr (JObj req)) st)) = 400)
      = (js_not (req ''name'') \<or> js_not (req ''dataUrl''))"
  proof (cases "js_not (req ''name'') \<or> js_not (req ''dataUrl'')")
    case True
    from post_documents_rejected [OF True, of uuid now st] True show ?thesis
      by (simp add: post_documents_request_object)
  next
    case False
    with post_documents_accepted_status [of req uuid now st] show ?thesis
      by (auto simp: post_documents_request_object)
  qed
next
  assume "js_not (req ''name'') \<or> js_not (req ''dataUrl'')"
  from post_documents_rejected [OF this, of uuid now st]
  show "snd (post_documents_request uuid now (Inr (JObj req)) st) = st"
    by (simp add: post_documents_request_object)
next
  assume "body \<noteq> JNull \<and> \<not> is_obj body"
  then have "body \<noteq> JNull" and "\<not> is_obj body" by simp_all
  from post_documents_request_no_fields [OF this, of uuid now st]
  show "resp_status (fst (post_documents_request uuid now (Inr body) st)) = 400"
    and "snd (post_documents_request uuid now (Inr body) st) = st"
    by simp_all
qed

theorem post_documents_validation_witness:
  "resp_status (fst (post_documents_request ''u1'' ''2024-02-02T00:00:00.000Z''
       (Inr (JObj [''size'' \<mapsto> JStr ''1 KB'', ''type'' \<mapsto> JStr ''text/plain'',
                   ''dataUrl'' \<mapsto> JStr ''data:,'']))
       sample_store)) = 400
   \<and> snd (post_documents_request ''u1'' ''2024-02-02T00:00:00.000Z''
       (Inr (JObj [''size'' \<mapsto> JStr ''1 KB'', ''type'' \<mapsto> JStr ''text/plain'',
                   ''dataUrl'' \<mapsto> JStr ''data:,'']))
       sample_store) = sample_store
   \<and> resp_status (fst (post_documents_request ''u1'' ''2024-02-02T00:00:00.000Z''
       (Inr (JObj [''name'' \<mapsto> JStr ''c.txt'', ''dataUrl'' \<mapsto> JStr ''data:,'']))
       sample_store)) \<noteq> 400
   \<and> resp_status (fst (post_documents_request ''u1'' ''2024-02-02T00:00:00.000Z''
       (Inr (JArr [])) sample_store)) = 400
   \<and> snd (post_documents_request ''u1'' ''2024-02-02T00:00:00.000Z''
       (Inr (JArr [])) sample_store) = sample_store"
proof -
  let ?r1 = "[''size'' \<mapsto> JStr ''1 KB'', ''type'' \<mapsto> JStr ''text/plain'', ''dataUrl'' \<mapsto> JStr ''data:,'']"
  let ?r2 = "[''name'' \<mapsto> JStr ''c.txt'', ''dataUrl'' \<mapsto> JStr ''data:,'']"
  have h1: "js_not (?r1 ''name'') \<or> js_not (?r1 ''dataUrl'')" by (simp add: js_not_def)
  have h2: "\<not> (js_not (?r2 ''name'') \<or> js_not (?r2 ''dataUrl''))" by (simp add: js_not_def)
  have h3: "JArr [] \<noteq> JNull \<and> \<not> is_obj (JArr [])" by (simp add: is_obj_def)
  from post_documents_validation [of "''u1''" "''2024-02-02T00:00:00.000Z''" ?r1 sample_store
      "JArr []"] h1 h3
  have a: "resp_status (fst (post_documents_request ''u1'' ''2024-02-02T00:00:00.000Z''
       (Inr (JObj ?r1)) sample_store)) = 400"
    and b: "snd (post_documents_request ''u1'' ''2024-02-02T00:00:00.000Z''
       (Inr (JObj ?r1)) sample_store) = sample_store"
    and d: "resp_status (fst (post_documents_request ''u1'' ''2024-02-02T00:00:00.000Z''
       (Inr (JArr [])) sample_store)) = 400"
    and e: "snd (post_documents_request ''u1'' ''2024-02-02T00:00:00.000Z''
       (Inr (JArr [])) sample_store) = sample_store"
    by blast+
  from post_documents_validation [of "''u1''" "''2024-02-02T00:00:00.000Z''" ?r2 sample_store
      "JArr []"] h2
  have c: "resp_status (fst (post_documents_request ''u1'' ''2024-02-02T00:00:00.000Z''
       (Inr (JObj ?r2)) sample_store)) \<noteq> 400"
    by blast
  from a b c d e show ?thesis by blast
qed

text \<open>
  A request with \<open>name\<close> and \<open>dataUrl\<close> and neither \<open>size\<close> nor \<open>type\<close> is accepted: the
  status is 200 and the document is written. A request with the body \<open>null\<close>, in which
  all four fields are missing, is answered with 500 and not 400.
\<close>

theorem post_documents_size_type_counterexample:
  "[''name'' \<mapsto> JStr ''c.txt'', ''dataUrl'' \<mapsto> JStr ''data:,''] ''size'' = None
   \<and> [''name'' \<mapsto> JStr ''c.txt'', ''dataUrl'' \<mapsto> JStr ''data:,''] ''type'' = None
   \<and> resp_status (fst (post_documents_request ''u1'' ''2024-02-02T00:00:00.000Z''
        (Inr (JObj [''name'' \<mapsto> JStr ''c.txt'', ''dataUrl'' \<mapsto> JStr ''data:,'']))
        empty_store)) = 200
   \<and> kv_writes (snd (post_documents_request ''u1'' ''2024-02-02T00:00:00.000Z''
        (Inr (JObj [''name'' \<mapsto> JStr ''c.txt'', ''dataUrl'' \<mapsto> JStr ''data:,'']))
        empty_store)) =
       [(''wis-documents'',
         JArr [JObj (new_document ''u1'' ''2024-02-02T00:00:00.000Z''
                 [''name'' \<mapsto> JStr ''c.txt'', ''dataUrl'' \<mapsto> JStr ''data:,''])])]
   \<and> resp_status (fst (post_documents_request ''u1'' ''2024-02-02T00:00:00.000Z''
        (Inr JNull) empty_store)) = 500"
  by (simp add: post_documents_request_def destructure_def post_documents_def catch_500_def
      js_not_def kv_get_def kv_set_def empty_store_def js_or_else_def as_array_def Let_def)

text \<open>
  A request whose body has all four fields, \<open>name\<close> being the empty string, is rejected
  with 400: nothing is appended.
\<close>

theorem post_documents_empty_name_counterexample:
  "[''name'' \<mapsto> JStr '''', ''size'' \<mapsto> JStr ''1 KB'', ''type'' \<mapsto> JStr ''text/plain'',
    ''dataUrl'' \<mapsto> JStr ''data:,''] ''name'' \<noteq> None
   \<and> [''name'' \<mapsto> JStr '''', ''size'' \<mapsto> JStr ''1 KB'', ''type'' \<mapsto> JStr ''text/plain'',
    ''dataUrl'' \<mapsto> JStr ''data:,''] ''dataUrl'' \<noteq> None
   \<and> post_documents ''u1'' ''2024-02-02T00:00:00.000Z''
        [''name'' \<mapsto> JStr '''', ''size'' \<mapsto> JStr ''1 KB'', ''type'' \<mapsto> JStr ''text/plain'',
         ''dataUrl'' \<mapsto> JStr ''data:,''] empty_store =
       (\<lparr> resp_status = 400,
           resp_body = [''error'' \<mapsto> JStr ''Missing required fields: name and dataUrl''] \<rparr>,
        empty_store)
   \<and> get_documents empty_store =
       (\<lparr> resp_status = 200, resp_body = [''documents'' \<mapsto> JArr []] \<rparr>, empty_store)"
  by (simp add: post_documents_def get_documents_def catch_500_def js_not_def kv_get_def
      empty_store_def js_or_else_def)

text \<open>
  Claim C4, as amended. Let the store hold the documents \<open>docs\<close>, and let the body of a
  \<open>POST /documents\<close> request have truthy \<open>name\<close> and \<open>dataUrl\<close>. Then the handler answers
  200 and stores \<open>docs\<close> with one new document appended, which a following
  \<open>GET /documents\<close> lists. The new document has the generated id and the \<open>name\<close>, \<open>size\<close>,
  \<open>type\<close> and \<open>dataUrl\<close> of the body; its \<open>uploadedAt\<close> is the current time, its
  \<open>category\<close> is \<open>Uncategorized\<close> and its \<open>isFavorite\<close> is \<open>false\<close> when the body does not
  supply them. When no stored document has the generated id, the new document is in the
  list exactly once.
\<close>

theorem post_documents_appends:
  assumes "holds_collection st ''wis-documents'' docs"
    and "\<not> js_not (req ''name'')" and "\<not> js_not (req ''dataUrl'')"
  shows "(\<exists>st'. post_documents uuid now req st =
            (\<lparr> resp_status = 200,
                resp_body = [''document'' \<mapsto> JObj (new_document uuid now req),
                             ''message'' \<mapsto> JStr ''Document uploaded successfully''] \<rparr>, st')
          \<and> kv_data st' =
              (kv_data st)(''wis-documents'' \<mapsto> JArr (docs @ [JObj (new_document uuid now req)]))
          \<and> get_documents st' =
              (\<lparr> resp_status = 200,
                  resp_body = [''documents'' \<mapsto> JArr (docs @ [JObj (new_document uuid now req)])] \<rparr>,
               st'))
    \<and> new_document uuid now req ''id'' = Some (JStr uuid)
    \<and> new_document uuid now req ''name'' = req ''name''
    \<and> new_document uuid now req ''size'' = req ''size''
    \<and> new_document uuid now req ''type'' = req ''type''
    \<and> new_document uuid now req ''dataUrl'' = req ''dataUrl''
    \<and> (req ''uploadedAt'' = None \<longrightarrow>
          new_document uuid now req ''uploadedAt'' = Some (JStr now))
    \<and> (req ''category'' = None \<longrightarrow>
          new_document uuid now req ''category'' = Some (JStr ''Uncategorized''))
    \<and> (req ''isFavorite'' = None \<longrightarrow>
          new_document uuid now req ''isFavorite'' = Some (JBool False))
    \<and> (\<not> list_ex (has_id uuid) docs \<longrightarrow>
          count_list (docs @ [JObj (new_document uuid now req)])
            (JObj (new_document uuid now req)) = 1)"
proof -
  let ?nd = "new_document uuid now req"
  note g = kv_get_collection [OF assms(1)] js_or_else_collection [OF assms(1)]
  from assms(1) have up: "kv_up st" by (simp add: holds_collection_def)
  let ?st' = "st\<lparr> kv_data := (kv_data st)(''wis-documents'' \<mapsto> JArr (docs @ [JObj ?nd])),
                  kv_writes := kv_writes st @ [(''wis-documents'', JArr (docs @ [JObj ?nd]))] \<rparr>"
  have post: "post_documents uuid now req st =
            (\<lparr> resp_status = 200,
                resp_body = [''document'' \<mapsto> JObj ?nd,
                             ''message'' \<mapsto> JStr ''Document uploaded successfully''] \<rparr>, ?st')"
    using g up assms(2,3)
    by (simp add: post_documents_def as_array_def catch_500_def kv_set_def Let_def)
  have get: "get_documents ?st' =
              (\<lparr> resp_status = 200, resp_body = [''documents'' \<mapsto> JArr (docs @ [JObj ?nd])] \<rparr>, ?st')"
    using up by (simp add: get_documents_def kv_get_def catch_500_def js_or_else_def)
  from post get have main: "\<exists>st'. post_documents uuid now req st =
            (\<lparr> resp_status = 200,
                resp_body = [''document'' \<mapsto> JObj ?nd,
                             ''message'' \<mapsto> JStr ''Document uploaded successfully''] \<rparr>, st')
          \<and> kv_data st' = (kv_data st)(''wis-documents'' \<mapsto> JArr (docs @ [JObj ?nd]))
          \<and> get_documents st' =
              (\<lparr> resp_status = 200, resp_body = [''documents'' \<mapsto> JArr (docs @ [JObj ?nd])] \<rparr>, st')"
    by (intro exI [of _ ?st']) simp
  have fields: "?nd ''id'' = Some (JStr uuid)" "?nd ''name'' = req ''name''"
    "?nd ''size'' = req ''size''" "?nd ''type'' = req ''type''" "?nd ''dataUrl'' = req ''dataUrl''"
    by (simp_all add: new_document_def)
  have defaults: "req ''uploadedAt'' = None \<longrightarrow> ?nd ''uploadedAt'' = Some (JStr now)"
    "req ''category'' = None \<longrightarrow> ?nd ''category'' = Some (JStr ''Uncategorized'')"
    "req ''isFavorite'' = None \<longrightarrow> ?nd ''isFavorite'' = Some (JBool False)"
    by (simp_all add: new_document_def js_or_else_def)
  have once: "\<not> list_ex (has_id uuid) docs \<longrightarrow> count_list (docs @ [JObj ?nd]) (JObj ?nd) = 1"
  proof
    assume fresh: "\<not> list_ex (has_id uuid) docs"
    have "has_id uuid (JObj ?nd)" using fields(1) by (simp add: has_id_def)
    with fresh have "JObj ?nd \<notin> set docs" by (auto simp: list_ex_iff)
    then have "count_list docs (JObj ?nd) = 0" by (simp add: count_list_0_iff)
    then show "count_list (docs @ [JObj ?nd]) (JObj ?nd) = 1" by simp
  qed
  from main fields defaults once show ?thesis by (intro conjI)
qed

theorem post_documents_appends_witness:
  "(\<exists>st'. post_documents ''u1'' ''2024-02-02T00:00:00.000Z'' sample_upload sample_store =
        (\<lparr> resp_status = 200,
            resp_body = [''document'' \<mapsto>
                           JObj (new_document ''u1'' ''2024-02-02T00:00:00.000Z'' sample_upload),
                         ''message'' \<mapsto> JStr ''Document uploaded successfully''] \<rparr>, st')
      \<and> get_documents st' =
        (\<lparr> resp_status = 200,
            resp_body = [''documents'' \<mapsto>
                           JArr ([sample_doc ''d1'' ''a.txt'', sample_doc ''d2'' ''b.txt''] @
                                 [JObj (new_document ''u1'' ''2024-02-02T00:00:00.000Z''
                                          sample_upload)])] \<rparr>, st'))
   \<and> new_document ''u1'' ''2024-02-02T00:00:00.000Z'' sample_upload ''id'' = Some (JStr ''u1'')
   \<and> new_document ''u1'' ''2024-02-02T00:00:00.000Z'' sample_upload ''name'' = Some (JStr ''c.txt'')
   \<and> new_document ''u1'' ''2024-02-02T00:00:00.000Z'' sample_upload ''uploadedAt'' =
        Some (JStr ''2024-02-02T00:00:00.000Z'')
   \<and> new_document ''u1'' ''2024-02-02T00:00:00.000Z'' sample_upload ''category'' =
        Some (JStr ''Uncategorized'')
   \<and> new_document ''u1'' ''2024-02-02T00:00:00.000Z'' sample_upload ''isFavorite'' =
        Some (JBool False)
   \<and> count_list
        ([sample_doc ''d1'' ''a.txt'', sample_doc ''d2'' ''b.txt''] @
         [JObj (new_document ''u1'' ''2024-02-02T00:00:00.000Z'' sample_upload)])
        (JObj (new_document ''u1'' ''2024-02-02T00:00:00.000Z'' sample_upload)) = 1"
proof -
  let ?docs = "[sample_doc ''d1'' ''a.txt'', sample_doc ''d2'' ''b.txt'']"
  have h1: "holds_collection sample_store ''wis-documents'' ?docs"
    by (simp add: holds_collection_def sample_store_def)
  have h2: "\<not> js_not (sample_upload ''name'')" and h3: "\<not> js_not (sample_upload ''dataUrl'')"
    by (simp_all add: js_not_def sample_upload_def)
  have fresh: "\<not> list_ex (has_id ''u1'') ?docs"
    by (simp add: has_id_def sample_doc_def)
  have absent: "sample_upload ''uploadedAt'' = None" "sample_upload ''category'' = None"
    "sample_upload ''isFavorite'' = None"
    by (simp_all add: sample_upload_def)
  have name: "sample_upload ''name'' = Some (JStr ''c.txt'')"
    by (simp add: sample_upload_def)
  from post_documents_appends [OF h1 h2 h3, of "''u1''" "''2024-02-02T00:00:00.000Z''"]
    fresh absent name
  show ?thesis by metis
qed

section \<open>Properties of the \<open>ProjectStructure\<close> component\<close>

lemma currentFolders_set [simp]:
  "currentFolders (setCurrentFolders f c) = f (currentFolders c)"
  by (simp add: currentFolders_def setCurrentFolders_def)

lemma activeRepo_set [simp]: "activeRepo (setCurrentFolders f c) = activeRepo c"
  by (simp add: setCurrentFolders_def)

text \<open>
  Claim C8. For an index \<open>i\<close> into the current folder array, moving up swaps the
  folders at \<open>i\<close> and \<open>i - 1\<close> when \<open>i \<ge> 1\<close> and leaves the component as it is when
  \<open>i = 0\<close>; moving down swaps the folders at \<open>i\<close> and \<open>i + 1\<close> when \<open>i + 1\<close> is an index
  and leaves the component as it is when \<open>i\<close> is the last index.
\<close>

theorem moveFolder_swaps:
  assumes "i < length (currentFolders c)"
  shows "(\<exists>c'. moveFolder i Up c = Some c'
          \<and> currentFolders c' =
              (if 1 \<le> i
               then (currentFolders c)[i := currentFolders c ! (i - 1), i - 1 := currentFolders c ! i]
               else currentFolders c)
          \<and> (i = 0 \<longrightarrow> c' = c))
       \<and> (\<exists>c'. moveFolder i Down c = Some c'
          \<and> currentFolders c' =
              (if i + 1 < length (currentFolders c)
               then (currentFolders c)[i := currentFolders c ! (i + 1), i + 1 := currentFolders c ! i]
               else currentFolders c)
          \<and> (i + 1 = length (currentFolders c) \<longrightarrow> c' = c))"
proof (intro conjI)
  show "\<exists>c'. moveFolder i Up c = Some c'
          \<and> currentFolders c' =
              (if 1 \<le> i
               then (currentFolders c)[i := currentFolders c ! (i - 1), i - 1 := currentFolders c ! i]
               else currentFolders c)
          \<and> (i = 0 \<longrightarrow> c' = c)"
  proof (cases "1 \<le> i")
    case True
    then have "nat (int i - 1) = i - 1" by simp
    with True assms show ?thesis by (simp add: moveFolder_def Let_def)
  next
    case False
    with assms show ?thesis by (simp add: moveFolder_def Let_def)
  qed
  show "\<exists>c'. moveFolder i Down c = Some c'
          \<and> currentFolders c' =
              (if i + 1 < length (currentFolders c)
               then (currentFolders c)[i := currentFolders c ! (i + 1), i + 1 := currentFolders c ! i]
               else currentFolders c)
          \<and> (i + 1 = length (currentFolders c) \<longrightarrow> c' = c)"
  proof (cases "i + 1 < length (currentFolders c)")
    case True
    have "nat (int i + 1) = i + 1" by simp
    with True assms show ?thesis by (simp add: moveFolder_def Let_def)
  next
    case False
    with assms show ?thesis by (simp add: moveFolder_def Let_def)
  qed
qed

theorem moveFolder_swaps_witness:
  "map_option (map folder_name \<circ> currentFolders)
      (moveFolder 1 Up (sample_component [named_folder ''A'', named_folder ''B'', named_folder ''C'']))
     = Some [''B'', ''A'', ''C'']
   \<and> moveFolder 0 Up (sample_component [named_folder ''A'', named_folder ''B'', named_folder ''C''])
     = Some (sample_component [named_folder ''A'', named_folder ''B'', named_folder ''C''])
   \<and> map_option (map folder_name \<circ> currentFolders)
      (moveFolder 1 Down (sample_component [named_folder ''A'', named_folder ''B'', named_folder ''C'']))
     = Some [''A'', ''C'', ''B'']
   \<and> moveFolder 2 Down (sample_component [named_folder ''A'', named_folder ''B'', named_folder ''C''])
     = Some (sample_component [named_folder ''A'', named_folder ''B'', named_folder ''C''])"
proof -
  let ?c = "sample_component [named_folder ''A'', named_folder ''B'', named_folder ''C'']"
  have cf: "currentFolders ?c = [named_folder ''A'', named_folder ''B'', named_folder ''C'']"
    by (simp add: sample_component_def currentFolders_def)
  have l: "0 < length (currentFolders ?c)" "1 < length (currentFolders ?c)"
    "2 < length (currentFolders ?c)"
    by (simp_all add: cf)
  from moveFolder_swaps [OF l(2)] obtain c1 c2 where
    u: "moveFolder 1 Up ?c = Some c1"
      "currentFolders c1 =
         (if (1::nat) \<le> 1
          then (currentFolders ?c)[1 := currentFolders ?c ! (1 - 1), 1 - 1 := currentFolders ?c ! 1]
          else currentFolders ?c)"
    and dn: "moveFolder 1 Down ?c = Some c2"
      "currentFolders c2 =
         (if 1 + 1 < length (currentFolders ?c)
          then (currentFolders ?c)[1 := currentFolders ?c ! (1 + 1), 1 + 1 := currentFolders ?c ! 1]
          else currentFolders ?c)"
    by blast
  from u(2) have "currentFolders c1 = [named_folder ''B'', named_folder ''A'', named_folder ''C'']"
    unfolding cf by simp
  with u(1)
  have a: "map_option (map folder_name \<circ> currentFolders) (moveFolder 1 Up ?c) = Some [''B'', ''A'', ''C'']"
    by (simp add: named_folder_def)
  from dn(2) have "currentFolders c2 = [named_folder ''A'', named_folder ''C'', named_folder ''B'']"
    unfolding cf by simp
  with dn(1)
  have c: "map_option (map folder_name \<circ> currentFolders) (moveFolder 1 Down ?c)
      = Some [''A'', ''C'', ''B'']"
    by (simp add: named_folder_def)
  from moveFolder_swaps [OF l(1)] have b: "moveFolder 0 Up ?c = Some ?c" by auto
  from moveFolder_swaps [OF l(3)] have d: "moveFolder 2 Down ?c = Some ?c" unfolding cf by auto
  from a b c d show ?thesis by simp
qed

lemma save_ui_effect_overwrites:
  assumes "kv_up st" and "uiFolders c \<noteq> []"
  shows "save_ui_effect c st = overwritten st ''wis-ui-structure'' (folders_json (uiFolders c))"
  using assms
  by (simp add: save_ui_effect_def post_structure_ui_def catch_500_def kv_set_def folders_json_def
      overwritten_def)

lemma save_api_effect_overwrites:
  assumes "kv_up st" and "apiFolders c \<noteq> []"
  shows "save_api_effect c st = overwritten st ''wis-api-structure'' (folders_json (apiFolders c))"
  using assms
  by (simp add: save_api_effect_def post_structure_api_def catch_500_def kv_set_def folders_json_def
      overwritten_def)

lemma run_effects_after_set:
  assumes up: "kv_up st" and clean: "\<not> ui_set c" "\<not> api_set c"
  shows "snd (run_effects (setCurrentFolders f c) st) =
     (if f (currentFolders c) \<noteq> []
      then overwritten st (structure_key (activeRepo c)) (folders_json (f (currentFolders c)))
      else st)"
proof (cases "activeRepo c")
  case UI
  let ?c' = "setCurrentFolders f c"
  from UI clean have s: "ui_set ?c'" "\<not> api_set ?c'" "uiFolders ?c' = f (currentFolders c)"
    by (simp_all add: setCurrentFolders_def currentFolders_def)
  show ?thesis
  proof (cases "f (currentFolders c) = []")
    case True
    with s show ?thesis by (simp add: run_effects_def save_ui_effect_def Let_def)
  next
    case False
    with s have "uiFolders ?c' \<noteq> []" by simp
    from save_ui_effect_overwrites [OF up this] s False UI show ?thesis
      by (simp add: run_effects_def Let_def structure_key_def)
  qed
next
  case API
  let ?c' = "setCurrentFolders f c"
  from API clean have s: "\<not> ui_set ?c'" "api_set ?c'" "apiFolders ?c' = f (currentFolders c)"
    by (simp_all add: setCurrentFolders_def currentFolders_def)
  show ?thesis
  proof (cases "f (currentFolders c) = []")
    case True
    with s show ?thesis by (simp add: run_effects_def save_api_effect_def Let_def)
  next
    case False
    with s have "apiFolders ?c' \<noteq> []" by simp
    from save_api_effect_overwrites [OF up this] s False API show ?thesis
      by (simp add: run_effects_def Let_def structure_key_def)
  qed
qed

lemma run_effects_update:
  "snd (run_effects (c\<lparr> expandedFolder := x \<rparr>) st) = snd (run_effects c st)"
  "snd (run_effects (c\<lparr> editingFolder := y, editData := z \<rparr>) st) = snd (run_effects c st)"
  by (simp_all add: run_effects_def save_ui_effect_def save_api_effect_def Let_def)

lemma currentFolders_update [simp]:
  "currentFolders (c\<lparr> expandedFolder := x \<rparr>) = currentFolders c"
  "currentFolders (c\<lparr> editingFolder := y, editData := z \<rparr>) = currentFolders c"
  by (simp_all add: currentFolders_def)

lemma mutate_sets:
  assumes "mutates m c"
  shows "\<exists>f u. mutate m c = Some (u (setCurrentFolders f c))
       \<and> (\<forall>x. currentFolders (u x) = currentFolders x)
       \<and> (\<forall>x st. snd (run_effects (u x) st) = snd (run_effects x st))"
proof (cases m)
  case (Add now)
  show ?thesis
    unfolding Add mutate_def handleAddFolder_def Let_def mutation.case
    by (intro exI [of _ "\<lambda>x. x"] exI) simp
next
  case Edit
  with assms obtain editing edited where
    e: "editingFolder c = Some editing" "editData c = Some edited" "editing \<noteq> ''''"
    by (auto simp: mutates_def split: option.splits)
  show ?thesis
    unfolding Edit mutate_def handleSave_def mutation.case e option.case prod.case
    using e(3) run_effects_update(2)
    by (intro exI [of _ "\<lambda>x. x\<lparr> editingFolder := None, editData := None \<rparr>"] exI) simp
next
  case (Delete folderName)
  show ?thesis
  proof (cases "expandedFolder c = Some folderName")
    case True
    then show ?thesis
      unfolding Delete mutate_def handleDeleteFolder_def Let_def mutation.case
      using run_effects_update(1)
      by (intro exI [of _ "\<lambda>x. x\<lparr> expandedFolder := None \<rparr>"] exI) simp
  next
    case False
    then show ?thesis
      unfolding Delete mutate_def handleDeleteFolder_def Let_def mutation.case
      by (intro exI [of _ "\<lambda>x. x"] exI) simp
  qed
next
  case (Reorder index dir)
  with assms have r: "index < length (currentFolders c)"
    "case dir of Up \<Rightarrow> 1 \<le> index | Down \<Rightarrow> index + 1 < length (currentFolders c)"
    by (simp_all add: mutates_def)
  then have "(case dir of Up \<Rightarrow> int index - 1 | Down \<Rightarrow> int index + 1) \<ge> 0
      \<and> (case dir of Up \<Rightarrow> int index - 1 | Down \<Rightarrow> int index + 1) < int (length (currentFolders c))"
    by (cases dir) simp_all
  with r(1) show ?thesis
    unfolding Reorder mutate_def moveFolder_def Let_def mutation.case
    by (intro exI [of _ "\<lambda>x. x"] exI) simp
qed

text \<open>
  Claim C9, as amended. Let the store be up and the save effects of earlier renders have
  run. After an add, a delete, the save of an edit in progress or a reorder within the
  array, the save effect of the active repository writes the whole resulting folder array
  under the key of that repository, in one \<open>kv.set\<close>, when that array is not empty; when
  it is empty, the effect writes nothing and the store keeps what it had.
\<close>

theorem mutation_overwrites:
  assumes "kv_up st" and "\<not> ui_set c" and "\<not> api_set c" and "mutates m c"
  shows "\<exists>c'. mutate m c = Some c'
      \<and> (currentFolders c' \<noteq> [] \<longrightarrow>
           snd (run_effects c' st) =
             overwritten st (structure_key (activeRepo c)) (folders_json (currentFolders c')))
      \<and> (currentFolders c' = [] \<longrightarrow> snd (run_effects c' st) = st)"
proof -
  from mutate_sets [OF assms(4)] obtain f u where
    m: "mutate m c = Some (u (setCurrentFolders f c))"
    and cf: "\<And>x. currentFolders (u x) = currentFolders x"
    and re: "\<And>x st. snd (run_effects (u x) st) = snd (run_effects x st)"
    by blast
  from run_effects_after_set [OF assms(1,2,3), of f]
  have "snd (run_effects (u (setCurrentFolders f c)) st) =
     (if f (currentFolders c) \<noteq> []
      then overwritten st (structure_key (activeRepo c)) (folders_json (f (currentFolders c)))
      else st)"
    by (simp only: re)
  moreover have "currentFolders (u (setCurrentFolders f c)) = f (currentFolders c)"
    by (simp add: cf)
  ultimately show ?thesis using m by simp
qed

text \<open>
  Deleting the only folder: the local array is empty, the save effect is skipped by its
  \<open>length > 0\<close> test, and the store still holds the deleted folder.
\<close>

theorem delete_last_folder_counterexample:
  "mutate (Delete ''Features'') (sample_component [named_folder ''Features'']) =
      Some ((sample_component [])\<lparr> ui_set := True \<rparr>)
   \<and> uiFolders ((sample_component [])\<lparr> ui_set := True \<rparr>) = []
   \<and> snd (run_effects ((sample_component [])\<lparr> ui_set := True \<rparr>)
        (sample_ui_store [named_folder ''Features''])) = sample_ui_store [named_folder ''Features'']
   \<and> kv_data (sample_ui_store [named_folder ''Features'']) ''wis-ui-structure'' =
        Some (JArr [folder_json (named_folder ''Features'')])
   \<and> kv_data (sample_ui_store [named_folder ''Features'']) ''wis-ui-structure'' \<noteq>
        Some (folders_json (uiFolders ((sample_component [])\<lparr> ui_set := True \<rparr>)))"
  by (simp add: mutate_def handleDeleteFolder_def setCurrentFolders_def sample_component_def
      named_folder_def run_effects_def save_ui_effect_def sample_ui_store_def folders_json_def
      Let_def)

theorem mutation_overwrites_witness:
  "mutate (Delete ''A'') (sample_component [named_folder ''A'', named_folder ''B'']) =
      Some ((sample_component [named_folder ''B''])\<lparr> ui_set := True \<rparr>)
   \<and> snd (run_effects ((sample_component [named_folder ''B''])\<lparr> ui_set := True \<rparr>)
        (sample_ui_store [named_folder ''A'', named_folder ''B''])) =
      overwritten (sample_ui_store [named_folder ''A'', named_folder ''B'']) ''wis-ui-structure''
        (folders_json [named_folder ''B''])
   \<and> mutate (Delete ''B'') (sample_component [named_folder ''B'']) =
      Some ((sample_component [])\<lparr> ui_set := True \<rparr>)
   \<and> snd (run_effects ((sample_component [])\<lparr> ui_set := True \<rparr>)
        (sample_ui_store [named_folder ''B''])) = sample_ui_store [named_folder ''B'']"
proof -
  let ?c = "sample_component [named_folder ''A'', named_folder ''B'']"
  let ?st = "sample_ui_store [named_folder ''A'', named_folder ''B'']"
  let ?c2 = "sample_component [named_folder ''B'']"
  let ?st2 = "sample_ui_store [named_folder ''B'']"
  have h: "kv_up ?st" "\<not> ui_set ?c" "\<not> api_set ?c" "mutates (Delete ''A'') ?c"
    "kv_up ?st2" "\<not> ui_set ?c2" "\<not> api_set ?c2" "mutates (Delete ''B'') ?c2"
    by (simp_all add: sample_ui_store_def sample_component_def mutates_def)
  have m1: "mutate (Delete ''A'') ?c = Some ((sample_component [named_folder ''B''])\<lparr> ui_set := True \<rparr>)"
    by (simp add: mutate_def handleDeleteFolder_def setCurrentFolders_def sample_component_def
        named_folder_def Let_def)
  have m2: "mutate (Delete ''B'') ?c2 = Some ((sample_component [])\<lparr> ui_set := True \<rparr>)"
    by (simp add: mutate_def handleDeleteFolder_def setCurrentFolders_def sample_component_def
        named_folder_def Let_def)
  have cf: "currentFolders ((sample_component [named_folder ''B''])\<lparr> ui_set := True \<rparr>) = [named_folder ''B'']"
    "currentFolders ((sample_component [])\<lparr> ui_set := True \<rparr>) = []"
    "activeRepo ?c = UI"
    by (simp_all add: currentFolders_def sample_component_def)
  from mutation_overwrites [OF h(1-4)] m1 cf
  have a: "snd (run_effects ((sample_component [named_folder ''B''])\<lparr> ui_set := True \<rparr>) ?st) =
      overwritten ?st ''wis-ui-structure'' (folders_json [named_folder ''B''])"
    by (auto simp: structure_key_def)
  from mutation_overwrites [OF h(5-8)] m2 cf
  have b: "snd (run_effects ((sample_component [])\<lparr> ui_set := True \<rparr>) ?st2) = ?st2"
    by auto
  from m1 a m2 b show ?thesis by blast
qed

end
